theory Spec2Isabelle
  imports Main "HOL-Library.AList"
begin

section \<open>Configuration\<close>

text \<open>
  The two logical states of a work site (the string constants \<open>EMPTY\<close> and \<open>FILLED\<close> of
  \<^verbatim>\<open>modbus-sync-worksites.js\<close>), and one entry of the \<open>SITES\<close> table. The field
  \<open>default\<close> of the source is called \<open>defaultState\<close> here, the name of the parameter of
  \<open>defaultToBool\<close>. Offsets and timestamps are JavaScript numbers holding integers
  (\<open>Number.isInteger\<close> is checked at start-up, \<open>Date.now()\<close> is a millisecond count);
  they are modelled as \<open>int\<close>. A time value is at most 8.64e15 in magnitude, below
  \<open>2^53\<close>, so the differences of timestamps the program forms are exact. An offset can be
  any non-negative integer that is a double, and sums and differences of such numbers are
  rounded: \<open>js_sub\<close> and \<open>js_add\<close> below are the two operations on integers.
\<close>

datatype logical = EMPTY | FILLED

record site =
  siteId :: string
  ip :: string
  port :: nat
  slaveId :: nat
  offset :: int
  defaultState :: logical

text \<open>
  Arithmetic on numbers is IEEE 754 double precision. On integers it is the exact result
  rounded to the nearest double, ties to the even significand: an integer of more than 53
  bits is rounded to a multiple of \<open>2^e\<close>, where \<open>e\<close> is the number of bits beyond 53.
  (The offsets are finite and, once validated, not negative, so neither the difference of two
  of them nor that difference plus 1 overflows.)
\<close>

fun bit_length :: "nat \<Rightarrow> nat" where
  "bit_length n = (if n = 0 then 0 else Suc (bit_length (n div 2)))"

declare bit_length.simps [simp del]

definition round_double :: "int \<Rightarrow> int" where
  "round_double x =
     (let a = \<bar>x\<bar>;
          e = bit_length (nat a) - 53;
          u = 2 ^ e;
          q = a div u;
          r = a mod u;
          m = (if 2 * r < u then q
               else if 2 * r > u then q + 1
               else if even q then q else q + 1)
      in sgn x * (m * u))"

definition js_sub :: "int \<Rightarrow> int \<Rightarrow> int" where
  "js_sub a b = round_double (a - b)"

definition js_add :: "int \<Rightarrow> int \<Rightarrow> int" where
  "js_add a b = round_double (a + b)"

text \<open>
  \<open>validateConfig\<close> runs once at start-up and throws at the first bad entry. With the
  types above an entry can be bad in three ways: an empty \<open>siteId\<close>, a \<open>siteId\<close> seen
  before, a negative offset (a default other than the two states is excluded by the type).
  \<open>None\<close> is the normal return; the set of seen ids is a list.
\<close>

datatype config_error = InvalidSiteId | DuplicateSiteId string | InvalidOffset string int

fun validate_loop :: "site list \<Rightarrow> string list \<Rightarrow> config_error option" where
  "validate_loop [] siteIds = None"
| "validate_loop (s # ss) siteIds =
     (if siteId s = [] then Some InvalidSiteId
      else if siteId s \<in> set siteIds then Some (DuplicateSiteId (siteId s))
      else if offset s < 0 then Some (InvalidOffset (siteId s) (offset s))
      else validate_loop ss (siteId s # siteIds))"

definition validateConfig :: "site list \<Rightarrow> config_error option" where
  "validateConfig SITES = validate_loop SITES []"

definition RECONNECT_BACKOFF_MS :: int where
  "RECONNECT_BACKOFF_MS = 5000"

definition FILL_DEBOUNCE_MS :: int where
  "FILL_DEBOUNCE_MS = 2000"

section \<open>Debounce state per work site\<close>

text \<open>
  \<open>siteDebounceStates\<close> (\<open>debounceStates\<close> in the second copy of the file) is a
  \<open>Map\<close> from \<open>siteId\<close> to an object with the two fields below.
\<close>

record dstate =
  lastOppositeStartTs :: "int option"
  effectiveVal :: bool

type_synonym dstates = "string \<rightharpoonup> dstate"

definition defaultToBool :: "logical \<Rightarrow> bool" where
  "defaultToBool def = (def = FILLED)"

text \<open>
  \<open>updateDebouncedState(site, rawVal, now)\<close>: the state object is created on first use,
  mutated in place and its \<open>effectiveVal\<close> returned. The model returns the value and the
  updated map. Both copies of the source have the same body.
\<close>

definition updateDebouncedState :: "site \<Rightarrow> bool \<Rightarrow> int \<Rightarrow> dstates \<Rightarrow> bool \<times> dstates" where
  "updateDebouncedState s rawVal now m =
     (let defaultBool = defaultToBool (defaultState s);
          oppositeBool = (\<not> defaultBool);
          st = (case m (siteId s) of
                  None \<Rightarrow> \<lparr>lastOppositeStartTs = None, effectiveVal = defaultBool\<rparr>
                | Some st \<Rightarrow> st);
          st' = (if rawVal = defaultBool
                 then st\<lparr>lastOppositeStartTs := None, effectiveVal := defaultBool\<rparr>
                 else (case lastOppositeStartTs st of
                         None \<Rightarrow> st\<lparr>lastOppositeStartTs := Some now, effectiveVal := defaultBool\<rparr>
                       | Some t \<Rightarrow>
                           if now - t \<ge> FILL_DEBOUNCE_MS
                           then st\<lparr>effectiveVal := oppositeBool\<rparr>
                           else st))
      in (effectiveVal st', m(siteId s \<mapsto> st')))"

fun resetDebounceForSites :: "site list \<Rightarrow> dstates \<Rightarrow> dstates" where
  "resetDebounceForSites [] m = m"
| "resetDebounceForSites (s # ss) m = resetDebounceForSites ss (m(siteId s := None))"

text \<open>
  The state an update works on: the stored one, or the fresh one the function creates when
  the site has none.
\<close>

definition stored :: "site \<Rightarrow> dstates \<Rightarrow> dstate" where
  "stored s m = (case m (siteId s) of
                   None \<Rightarrow> \<lparr>lastOppositeStartTs = None,
                             effectiveVal = defaultToBool (defaultState s)\<rparr>
                 | Some st \<Rightarrow> st)"

text \<open>
  Histories of the debounce map. Everything that touches the map is an update of one site
  or a reset of a list of sites; \<open>run\<close> replays such a history.
\<close>

datatype devent = Update site bool int | Reset "site list"

fun dstep :: "devent \<Rightarrow> dstates \<Rightarrow> dstates" where
  "dstep (Update s rawVal now) m = snd (updateDebouncedState s rawVal now m)"
| "dstep (Reset ss) m = resetDebounceForSites ss m"

fun run :: "devent list \<Rightarrow> dstates \<Rightarrow> dstates" where
  "run [] m = m"
| "run (e # es) m = run es (dstep e m)"

fun devent_sites :: "devent \<Rightarrow> site list" where
  "devent_sites (Update s rawVal now) = [s]"
| "devent_sites (Reset ss) = ss"

text \<open>
  The configuration is validated to have unique \<open>siteId\<close>s, so within one history
  every event that names a given \<open>siteId\<close> carries the same default.
\<close>

definition consistent :: "site \<Rightarrow> devent list \<Rightarrow> bool" where
  "consistent s es =
     (\<forall>e \<in> set es. \<forall>s' \<in> set (devent_sites e).
         siteId s' = siteId s \<longrightarrow> defaultState s' = defaultState s)"

text \<open>
  An event that can not take a switched site back to its default: an update of the site
  whose raw sample still disagrees with the default, a reset that does not name the site,
  or anything that concerns another site.
\<close>

fun keeps_raw :: "site \<Rightarrow> devent \<Rightarrow> bool" where
  "keeps_raw s (Update s' rawVal now) =
     (siteId s' = siteId s \<longrightarrow> rawVal = (\<not> defaultToBool (defaultState s)))"
| "keeps_raw s (Reset ss) = (siteId s \<notin> siteId ` set ss)"

text \<open>
  The invariant of every history: an effective value that differs from the default has a
  recorded start of the opposite signal.
\<close>

definition armed :: "site \<Rightarrow> dstates \<Rightarrow> bool" where
  "armed s m =
     (case m (siteId s) of
        None \<Rightarrow> True
      | Some st \<Rightarrow> effectiveVal st = defaultToBool (defaultState s)
                   \<or> lastOppositeStartTs st \<noteq> None)"

section \<open>Grouping sites by connection\<close>

text \<open>
  The key of a group is the template string \<open>`${s.ip}:${s.port}:${s.slaveId}`\<close>;
  \<open>decimal\<close> is the decimal rendering of a non-negative integer in it.
\<close>

fun decimal :: "nat \<Rightarrow> string" where
  "decimal n = (if n < 10 then [char_of (48 + n)]
                else decimal (n div 10) @ [char_of (48 + n mod 10)])"

declare decimal.simps [simp del]

definition site_key :: "site \<Rightarrow> string" where
  "site_key s = ip s @ '':'' @ decimal (port s) @ '':'' @ decimal (slaveId s)"

text \<open>
  \<open>groupSitesByConnection\<close> keeps a \<open>Map\<close> from key to a group object \<open>g\<close>
  (record \<open>gacc\<close>: the object while it is being filled, with \<open>maxOffset\<close>) and
  finally maps every value to the object that is returned (record \<open>group\<close>, with
  \<open>length\<close>, here \<open>length_g\<close>). A \<open>Map\<close> iterates in insertion order, so it
  is an association list; \<open>g\<close> is mutated through its reference, which is an update
  of the entry under its key.
\<close>

record gacc =
  a_key :: string
  a_ip :: string
  a_port :: nat
  a_slaveId :: nat
  a_sites :: "site list"
  a_minOffset :: int
  a_maxOffset :: int

record group =
  key :: string
  g_ip :: string
  g_port :: nat
  g_slaveId :: nat
  sites :: "site list"
  minOffset :: int
  length_g :: int

text \<open>The three statements that follow the lookup: push the site, lower the minimum,
  raise the maximum.\<close>

definition add_site :: "site \<Rightarrow> gacc \<Rightarrow> gacc" where
  "add_site s g =
     (let g1 = g\<lparr>a_sites := a_sites g @ [s]\<rparr>;
          g2 = (if offset s < a_minOffset g1 then g1\<lparr>a_minOffset := offset s\<rparr> else g1);
          g3 = (if offset s > a_maxOffset g2 then g2\<lparr>a_maxOffset := offset s\<rparr> else g2)
      in g3)"

definition group_step :: "site \<Rightarrow> (string \<times> gacc) list \<Rightarrow> (string \<times> gacc) list" where
  "group_step s groupsMap =
     (let key = site_key s
      in case map_of groupsMap key of
           None \<Rightarrow>
             groupsMap @
               [(key, add_site s \<lparr>a_key = key, a_ip = ip s, a_port = port s,
                                  a_slaveId = slaveId s, a_sites = [],
                                  a_minOffset = offset s, a_maxOffset = offset s\<rparr>)]
         | Some g \<Rightarrow> AList.update key (add_site s g) groupsMap)"

fun group_loop :: "site list \<Rightarrow> (string \<times> gacc) list \<Rightarrow> (string \<times> gacc) list" where
  "group_loop [] groupsMap = groupsMap"
| "group_loop (s # ss) groupsMap = group_loop ss (group_step s groupsMap)"

definition finish_group :: "gacc \<Rightarrow> group" where
  "finish_group g = \<lparr>key = a_key g, g_ip = a_ip g, g_port = a_port g, g_slaveId = a_slaveId g,
                     sites = a_sites g, minOffset = a_minOffset g,
                     length_g = js_add (js_sub (a_maxOffset g) (a_minOffset g)) 1\<rparr>"

definition groupSitesByConnection :: "site list \<Rightarrow> group list" where
  "groupSitesByConnection ss = map (finish_group \<circ> snd) (group_loop ss [])"

text \<open>
  The address and the quantity that \<open>readInputsForGroup\<close> passes to
  \<open>readDiscreteInputs\<close> (its constants \<open>startAddr\<close> and \<open>readLength\<close>).
\<close>

definition startAddr :: "group \<Rightarrow> int" where
  "startAddr g = minOffset g"

definition readLength :: "group \<Rightarrow> int" where
  "readLength g = (if length (sites g) = 1 then 1 else length_g g)"

text \<open>
  The loop invariant of \<open>groupSitesByConnection\<close>, over the sites seen so far: keys
  are distinct, every seen site has its group, and each group holds exactly the seen sites
  of its key, in order, with the minimum and maximum of their offsets.
\<close>

definition grouped :: "site list \<Rightarrow> (string \<times> gacc) list \<Rightarrow> bool" where
  "grouped seen m \<longleftrightarrow>
     distinct (map fst m)
     \<and> (\<forall>s \<in> set seen. site_key s \<in> fst ` set m)
     \<and> (\<forall>k g. map_of m k = Some g \<longrightarrow>
           a_key g = k
         \<and> a_sites g = filter (\<lambda>s. site_key s = k) seen
         \<and> a_sites g \<noteq> []
         \<and> a_minOffset g = Min (offset ` set (a_sites g))
         \<and> a_maxOffset g = Max (offset ` set (a_sites g)))"

section \<open>The world outside the process\<close>

text \<open>
  The process talks to a Modbus controller, to the dispatcher's HTTP interface, to the
  clock and to the console. What it sends is recorded, in order, in a trace of events.
  What it receives is decided by the environment: the answer to the \<open>n\<close>-th
  interaction of a run is the value of the matching function of \<open>env\<close> at \<open>n\<close>, and
  every interaction advances the counter \<open>steps\<close>. Since a run is sequential, any
  behaviour of the controller, of the dispatcher and of the clock is such a family of
  functions. The two library functions \<open>md5\<close> and \<open>JSON.parse\<close> are parameters too.
  The debug log \<open>dlog\<close> prints nothing, as \<open>DEBUG_LOG\<close> is the constant \<open>false\<close>.
\<close>

text \<open>A connected \<open>ModbusRTU\<close> object: the host and port of \<open>connectTCP\<close> and the
  unit set by \<open>setID\<close>.\<close>

datatype client = Client string nat nat

text \<open>
  What the callback of \<open>readDiscreteInputs\<close> receives: an error, a value that is
  falsy or whose \<open>data\<close> is no array, or the array of bits.
\<close>

datatype read_result = ReadRejected string | ReadMalformed | ReadInputs "bool list"

datatype json =
    JNull | JBool bool | JNum int | JStr string
  | JArr "json list" | JObj "(string \<times> json) list"

text \<open>
  The second argument of \<open>fetch\<close>. The headers object keeps its keys in insertion
  order; an absent one is the empty list, as \<open>options.headers || {}\<close> makes it. The body
  is the value handed to \<open>JSON.stringify\<close>.
\<close>

record options =
  http_method :: string
  headers :: "(string \<times> string) list"
  body :: "json option"

text \<open>
  A response: its status, its \<open>set-cookie\<close> header as \<open>headers.get\<close> returns it
  (\<open>null\<close> when absent) and its body text.
\<close>

record response =
  status :: nat
  set_cookie :: "string option"
  text_of :: string

datatype fetch_result = FetchRejected string | FetchResponse response

record env =
  Date_now :: "nat \<Rightarrow> int"
  connectTCP :: "nat \<Rightarrow> string option"
  readDiscreteInputs :: "nat \<Rightarrow> read_result"
  fetch :: "nat \<Rightarrow> fetch_result"
  md5 :: "string \<Rightarrow> string"
  JSON_parse :: "string \<Rightarrow> json option"

text \<open>The lines written by \<open>console.error\<close> and \<open>console.log\<close>, by call site.\<close>

datatype message =
    ReadFailedMsg string
  | GroupErrorMsg string string
  | MissingInputMsg string int int
  | RdsFailedMsg string
  | InitialLoginFailedMsg
  | Status400Msg string
  | SessionExpiredMsg
  | LoggedInMsg string

datatype event =
    EConnect string nat
  | ERead client int int
  | EClose client
  | EFetch string options
  | EError message
  | ELog message

text \<open>
  \<open>modbusStates\<close> maps a group key to \<open>{ client, lastAttempt }\<close> (the second copy of
  the file calls the field \<open>lastAttemptMs\<close>).
\<close>

record mstate =
  client :: "client option"
  lastAttempt :: int

record world =
  modbusStates :: "string \<rightharpoonup> mstate"
  siteDebounceStates :: dstates
  trace :: "event list"
  steps :: nat

definition emit :: "event \<Rightarrow> world \<Rightarrow> world" where
  "emit e w = w\<lparr>trace := trace w @ [e]\<rparr>"

definition tick :: "world \<Rightarrow> world" where
  "tick w = w\<lparr>steps := steps w + 1\<rparr>"

definition set_state :: "string \<Rightarrow> mstate \<Rightarrow> world \<Rightarrow> world" where
  "set_state k st w = w\<lparr>modbusStates := (modbusStates w)(k \<mapsto> st)\<rparr>"

text \<open>What a rejected promise or a \<open>throw\<close> carries.\<close>

datatype error =
    BackoffError
  | ModbusError string
  | InvalidResponse
  | FetchFailed string
  | LoginFailed nat
  | NoSessionCookie
  | SyntaxError
  | ApiError nat
  | ApiErrorBody nat string

section \<open>Reading the inputs of a group\<close>

subsection \<open>\<^verbatim>\<open>src/modbus-sync-worksites.js\<close>: errors are thrown\<close>

text \<open>
  The \<open>catch\<close> of the read: log, close the client (an error of \<open>close\<close> is swallowed, so
  its outcome is not looked at), forget the client, take the time again, rethrow.
\<close>

definition read_failed :: "env \<Rightarrow> group \<Rightarrow> client \<Rightarrow> error \<Rightarrow> world \<Rightarrow> (error + bool list) \<times> world" where
  "read_failed E g c err w =
     (let w1 = emit (EError (ReadFailedMsg (key g))) w;
          w2 = tick (emit (EClose c) w1);
          now' = Date_now E (steps w2);
          w3 = tick w2
      in (Inl err, set_state (key g) \<lparr>client = None, lastAttempt = now'\<rparr> w3))"

text \<open>The \<open>try\<close> of the read, entered with the client \<open>c\<close> in \<open>state.client\<close>.\<close>

definition read_inputs :: "env \<Rightarrow> group \<Rightarrow> client \<Rightarrow> world \<Rightarrow> (error + bool list) \<times> world" where
  "read_inputs E g c w =
     (let w1 = emit (ERead c (startAddr g) (readLength g)) w;
          raw = readDiscreteInputs E (steps w1);
          w2 = tick w1
      in case raw of
           ReadRejected msg \<Rightarrow> read_failed E g c (ModbusError msg) w2
         | ReadMalformed \<Rightarrow> read_failed E g c InvalidResponse w2
         | ReadInputs inputs \<Rightarrow> (Inr inputs, w2))"

definition readInputsForGroup :: "env \<Rightarrow> group \<Rightarrow> world \<Rightarrow> (error + bool list) \<times> world" where
  "readInputsForGroup E g w =
     (let now = Date_now E (steps w);
          w1 = tick w;
          (state, w2) = (case modbusStates w1 (key g) of
                           None \<Rightarrow> (\<lparr>client = None, lastAttempt = 0\<rparr>,
                                     set_state (key g) \<lparr>client = None, lastAttempt = 0\<rparr> w1)
                         | Some st \<Rightarrow> (st, w1))
      in case client state of
           Some c \<Rightarrow> read_inputs E g c w2
         | None \<Rightarrow>
             if now - lastAttempt state < RECONNECT_BACKOFF_MS then (Inl BackoffError, w2)
             else
               (let w3 = set_state (key g) (state\<lparr>lastAttempt := now\<rparr>) w2;
                    w4 = emit (EConnect (g_ip g) (g_port g)) w3;
                    res = connectTCP E (steps w4);
                    w5 = tick w4
                in case res of
                     Some msg \<Rightarrow> (Inl (ModbusError msg), w5)
                   | None \<Rightarrow>
                       (let c = Client (g_ip g) (g_port g) (g_slaveId g);
                            w6 = set_state (key g) \<lparr>client = Some c, lastAttempt = now\<rparr> w5
                        in read_inputs E g c w6)))"

subsection \<open>The second copy of the file: a status object is returned\<close>

datatype read_status = StatusOk "bool list" | StatusBackoff | StatusError string

text \<open>
  Here a malformed answer is a \<open>return\<close> from inside the \<open>try\<close>, so the \<open>catch\<close>
  is not entered for it; only a rejected read is.
\<close>

definition read_inputs_tagged :: "env \<Rightarrow> group \<Rightarrow> client \<Rightarrow> world \<Rightarrow> read_status \<times> world" where
  "read_inputs_tagged E g c w =
     (let w1 = emit (ERead c (startAddr g) (readLength g)) w;
          raw = readDiscreteInputs E (steps w1);
          w2 = tick w1
      in case raw of
           ReadRejected msg \<Rightarrow>
             (let w3 = tick (emit (EClose c) w2);
                  now' = Date_now E (steps w3);
                  w4 = tick w3
              in (StatusError (''readDiscreteInputs failed: '' @ msg),
                  set_state (key g) \<lparr>client = None, lastAttempt = now'\<rparr> w4))
         | ReadMalformed \<Rightarrow> (StatusError ''invalid readDiscreteInputs response format'', w2)
         | ReadInputs inputs \<Rightarrow> (StatusOk inputs, w2))"

definition readInputsForGroup_tagged :: "env \<Rightarrow> group \<Rightarrow> world \<Rightarrow> read_status \<times> world" where
  "readInputsForGroup_tagged E g w =
     (let now = Date_now E (steps w);
          w1 = tick w;
          (state, w2) = (case modbusStates w1 (key g) of
                           None \<Rightarrow> (\<lparr>client = None, lastAttempt = 0\<rparr>,
                                     set_state (key g) \<lparr>client = None, lastAttempt = 0\<rparr> w1)
                         | Some st \<Rightarrow> (st, w1))
      in case client state of
           Some c \<Rightarrow> read_inputs_tagged E g c w2
         | None \<Rightarrow>
             (let sinceLast = now - lastAttempt state
              in if lastAttempt state \<noteq> 0 \<and> sinceLast < RECONNECT_BACKOFF_MS
                 then (StatusBackoff, w2)
                 else
                   (let w3 = set_state (key g) (state\<lparr>lastAttempt := now\<rparr>) w2;
                        w4 = emit (EConnect (g_ip g) (g_port g)) w3;
                        res = connectTCP E (steps w4);
                        w5 = tick w4
                    in case res of
                         Some msg \<Rightarrow> (StatusError (''connect failed: '' @ msg), w5)
                       | None \<Rightarrow>
                           (let c = Client (g_ip g) (g_port g) (g_slaveId g);
                                w6 = set_state (key g) \<lparr>client = Some c, lastAttempt = now\<rparr> w5
                            in read_inputs_tagged E g c w6))))"

section \<open>The client of the dispatcher\<close>

record APIClient =
  apiHost :: string
  username :: string
  password :: string
  sessionId :: "string option"
  language :: string

text \<open>
  \<open>sessionId\<close> is \<open>null\<close> or a string; \<open>!this.sessionId\<close> holds for \<open>null\<close> and
  for the empty string. In a template string \<open>null\<close> is rendered as \<open>null\<close>.
\<close>

definition truthy :: "string option \<Rightarrow> bool" where
  "truthy v = (case v of None \<Rightarrow> False | Some s \<Rightarrow> s \<noteq> [])"

definition template :: "string option \<Rightarrow> string" where
  "template v = (case v of None \<Rightarrow> ''null'' | Some s \<Rightarrow> s)"

definition ok :: "response \<Rightarrow> bool" where
  "ok r = (200 \<le> status r \<and> status r \<le> 299)"

text \<open>
  \<open>response.json()\<close> and \<open>JSON.parse\<close>: the empty text is no JSON text, so decoding it
  fails; any other text is decoded by the parser of the platform.
\<close>

definition json_of :: "env \<Rightarrow> string \<Rightarrow> json option" where
  "json_of E t = (if t = [] then None else JSON_parse E t)"

text \<open>
  \<open>header.match(/JSESSIONID=([^;]+)/)\<close>, group 1: at the leftmost position where the
  literal is followed by at least one character other than \<open>;\<close>, the longest run of such
  characters.
\<close>

fun match_JSESSIONID :: "string \<Rightarrow> string option" where
  "match_JSESSIONID [] = None"
| "match_JSESSIONID (c # cs) =
     (if take 11 (c # cs) = ''JSESSIONID=''
         \<and> takeWhile (\<lambda>x. x \<noteq> CHR '';'') (drop 11 (c # cs)) \<noteq> []
      then Some (takeWhile (\<lambda>x. x \<noteq> CHR '';'') (drop 11 (c # cs)))
      else match_JSESSIONID cs)"

definition encryptPassword :: "env \<Rightarrow> string \<Rightarrow> string" where
  "encryptPassword E pw = md5 E pw"

text \<open>One call of \<open>fetch\<close>: the request goes to the trace, the environment answers.\<close>

definition do_fetch :: "env \<Rightarrow> string \<Rightarrow> options \<Rightarrow> world \<Rightarrow> (error + response) \<times> world" where
  "do_fetch E url opts w =
     (let w1 = tick (emit (EFetch url opts) w)
      in case fetch E (steps w) of
           FetchRejected msg \<Rightarrow> (Inl (FetchFailed msg), w1)
         | FetchResponse r \<Rightarrow> (Inr r, w1))"

definition login_options :: "env \<Rightarrow> APIClient \<Rightarrow> options" where
  "login_options E api =
     \<lparr>http_method = ''POST'',
      headers = [(''Content-Type'', ''application/json'')],
      body = Some (JObj [(''username'', JStr (username api)),
                         (''password'', JStr (encryptPassword E (password api)))])\<rparr>"

definition login :: "env \<Rightarrow> APIClient \<Rightarrow> world \<Rightarrow> (error + unit) \<times> APIClient \<times> world" where
  "login E api w =
     (case do_fetch E (apiHost api @ ''/admin/login'') (login_options E api) w of
        (Inl err, w1) \<Rightarrow> (Inl err, api, w1)
      | (Inr response, w1) \<Rightarrow>
          if \<not> ok response then (Inl (LoginFailed (status response)), api, w1)
          else
            (let setCookieHeader = set_cookie response;
                 match = (case setCookieHeader of
                            None \<Rightarrow> None
                          | Some h \<Rightarrow> match_JSESSIONID h);
                 api1 = api\<lparr>sessionId := match\<rparr>
             in if \<not> truthy (sessionId api1) then (Inl NoSessionCookie, api1, w1)
                else (case json_of E (text_of response) of
                        None \<Rightarrow> (Inl SyntaxError, api1, w1)
                      | Some v \<Rightarrow>
                          (Inr (), api1,
                           emit (ELog (LoggedInMsg (template (sessionId api1)))) w1))))"

text \<open>
  The class body of \<^verbatim>\<open>api-client.js\<close> defines the method \<open>apiCall\<close> twice (two more
  versions are commented out). In a JavaScript class body a later definition of a method
  replaces an earlier one of the same name, so every caller runs the second definition:
  it is \<open>apiCall\<close> below. The first, which nothing can call, is \<open>apiCall_first\<close>.
\<close>

text \<open>Steps 4 and 5 of \<open>apiCall\<close>: a failing status is thrown, after logging the body of
  a 400; a success is decoded by \<open>response.json()\<close>.\<close>

definition apiCall_result :: "env \<Rightarrow> response \<Rightarrow> world \<Rightarrow> (error + json) \<times> world" where
  "apiCall_result E response w =
     (if \<not> ok response
      then (Inl (ApiError (status response)),
            if status response = 400
            then emit (EError (Status400Msg (text_of response))) w else w)
      else (case json_of E (text_of response) of
              None \<Rightarrow> (Inl SyntaxError, w)
            | Some v \<Rightarrow> (Inr v, w)))"

text \<open>Step 1: without a session, log in first.\<close>

definition ensure_session :: "env \<Rightarrow> APIClient \<Rightarrow> world \<Rightarrow> (error + unit) \<times> APIClient \<times> world" where
  "ensure_session E api w =
     (if \<not> truthy (sessionId api) then login E api w else (Inr (), api, w))"

text \<open>The body of \<open>if ([401, 403].includes(response.status))\<close>: log, log in, put the new
  token into the cookie, send the request again; its answer replaces \<open>response\<close>.\<close>

definition relogin_and_resend :: "env \<Rightarrow> string \<Rightarrow> options \<Rightarrow> APIClient \<Rightarrow> world \<Rightarrow> (error + response) \<times> APIClient \<times> world" where
  "relogin_and_resend E url opts1 api w =
     (case login E api (emit (ELog SessionExpiredMsg) w) of
        (Inl err, api2, w3) \<Rightarrow> (Inl err, api2, w3)
      | (Inr u, api2, w3) \<Rightarrow>
          (let opts2 = opts1\<lparr>headers :=
                 AList.update ''Cookie'' (''JSESSIONID='' @ template (sessionId api2))
                   (headers opts1)\<rparr>
           in case do_fetch E url opts2 w3 of
                (Inl err, w4) \<Rightarrow> (Inl err, api2, w4)
              | (Inr response2, w4) \<Rightarrow> (Inr response2, api2, w4)))"

definition apiCall :: "env \<Rightarrow> string \<Rightarrow> options \<Rightarrow> APIClient \<Rightarrow> world \<Rightarrow> (error + json) \<times> APIClient \<times> world" where
  "apiCall E path opts api w =
     (case ensure_session E api w of
        (Inl err, api1, w1) \<Rightarrow> (Inl err, api1, w1)
      | (Inr u, api1, w1) \<Rightarrow>
          (let opts1 = opts\<lparr>headers :=
                 AList.update ''Language'' ''en''
                   (AList.update ''Cookie'' (''JSESSIONID='' @ template (sessionId api1))
                      (AList.update ''Content-Type'' ''application/json'' (headers opts)))\<rparr>;
               url = apiHost api1 @ path
           in case do_fetch E url opts1 w1 of
                (Inl err, w2) \<Rightarrow> (Inl err, api1, w2)
              | (Inr response, w2) \<Rightarrow>
                  (case (if status response = 401 \<or> status response = 403
                         then relogin_and_resend E url opts1 api1 w2
                         else (Inr response, api1, w2)) of
                     (Inl err, api2, w3) \<Rightarrow> (Inl err, api2, w3)
                   | (Inr response', api2, w3) \<Rightarrow>
                       (case apiCall_result E response' w3 of
                          (res, w4) \<Rightarrow> (res, api2, w4)))))"

text \<open>The end of the first definition: the failing status is thrown with the body; an
  empty body gives \<open>null\<close>, a text that does not decode is returned as it is.\<close>

definition apiCall_first_result :: "env \<Rightarrow> response \<Rightarrow> (error + json)" where
  "apiCall_first_result E response =
     (if \<not> ok response then Inl (ApiErrorBody (status response) (text_of response))
      else if text_of response = [] then Inr JNull
      else (case json_of E (text_of response) of
              None \<Rightarrow> Inr (JStr (text_of response))
            | Some v \<Rightarrow> Inr v))"

definition apiCall_first :: "env \<Rightarrow> string \<Rightarrow> options \<Rightarrow> APIClient \<Rightarrow> world \<Rightarrow> (error + json) \<times> APIClient \<times> world" where
  "apiCall_first E path opts api w =
     (let url = apiHost api @ path;
          h1 = (if truthy (sessionId api)
                then AList.update ''Cookie'' (''JSESSIONID='' @ template (sessionId api))
                       (headers opts)
                else headers opts);
          h2 = (if ''Language'' \<notin> fst ` set h1 \<and> ''language'' \<notin> fst ` set h1
                then AList.update ''Language''
                       (if language api = [] then ''en'' else language api) h1
                else h1);
          opts1 = opts\<lparr>headers := h2\<rparr>
      in case do_fetch E url opts1 w of
           (Inl err, w1) \<Rightarrow> (Inl err, api, w1)
         | (Inr response, w1) \<Rightarrow>
             if status response = 401 \<or> status response = 403
             then (case login E api (emit (ELog SessionExpiredMsg) w1) of
                     (Inl err, api2, w2) \<Rightarrow> (Inl err, api2, w2)
                   | (Inr u, api2, w2) \<Rightarrow>
                       (let opts2 = (if truthy (sessionId api2)
                                     then opts1\<lparr>headers :=
                                            AList.update ''Cookie''
                                              (''JSESSIONID='' @ template (sessionId api2))
                                              (headers opts1)\<rparr>
                                     else opts1)
                        in case do_fetch E url opts2 w2 of
                             (Inl err, w3) \<Rightarrow> (Inl err, api2, w3)
                           | (Inr response2, w3) \<Rightarrow>
                               (apiCall_first_result E response2, api2, w3)))
             else (apiCall_first_result E response, api, w1))"

definition setWorkSiteFilled :: "env \<Rightarrow> string \<Rightarrow> APIClient \<Rightarrow> world \<Rightarrow> (error + json) \<times> APIClient \<times> world" where
  "setWorkSiteFilled E worksiteName api w =
     apiCall E ''/api/work-sites/worksiteFiled''
       \<lparr>http_method = ''POST'', headers = [],
        body = Some (JObj [(''workSiteIds'', JArr [JStr worksiteName])])\<rparr> api w"

definition setWorkSiteEmpty :: "env \<Rightarrow> string \<Rightarrow> APIClient \<Rightarrow> world \<Rightarrow> (error + json) \<times> APIClient \<times> world" where
  "setWorkSiteEmpty E worksiteName api w =
     apiCall E ''/api/work-sites/worksiteUnFiled''
       \<lparr>http_method = ''POST'', headers = [],
        body = Some (JObj [(''workSiteIds'', JArr [JStr worksiteName])])\<rparr> api w"

text \<open>Counting the requests of a trace that went to a given URL.\<close>

fun is_fetch_to :: "string \<Rightarrow> event \<Rightarrow> bool" where
  "is_fetch_to u (EFetch u' opts) = (u' = u)"
| "is_fetch_to u (EConnect h p) = False"
| "is_fetch_to u (ERead c a n) = False"
| "is_fetch_to u (EClose c) = False"
| "is_fetch_to u (EError m) = False"
| "is_fetch_to u (ELog m) = False"

definition fetches_to :: "string \<Rightarrow> event list \<Rightarrow> nat" where
  "fetches_to u es = length (filter (is_fetch_to u) es)"

text \<open>The events a call added to the trace of the world it started in.\<close>

definition added :: "world \<Rightarrow> world \<Rightarrow> event list" where
  "added w w' = drop (length (trace w)) (trace w')"

text \<open>When a login answered by \<open>r\<close> goes through: a 2xx status, a token in the cookie, a
  body that decodes.\<close>

definition login_succeeds :: "env \<Rightarrow> response \<Rightarrow> bool" where
  "login_succeeds E r =
     (ok r
      \<and> truthy (case set_cookie r of None \<Rightarrow> None | Some h \<Rightarrow> match_JSESSIONID h)
      \<and> json_of E (text_of r) \<noteq> None)"

text \<open>
  The options as step 2 of \<open>apiCall\<close> leaves them for a client holding the session
  \<open>sid\<close>: the caller's options with the three headers set.
\<close>

definition sent :: "options \<Rightarrow> string option \<Rightarrow> options" where
  "sent opts sid = opts\<lparr>headers :=
                 AList.update ''Language'' ''en''
                   (AList.update ''Cookie'' (''JSESSIONID='' @ template sid)
                      (AList.update ''Content-Type'' ''application/json'' (headers opts)))\<rparr>"

section \<open>One sync cycle\<close>

definition writeWorksiteState :: "env \<Rightarrow> site \<Rightarrow> bool \<Rightarrow> APIClient \<Rightarrow> world \<Rightarrow> APIClient \<times> world" where
  "writeWorksiteState E s filledBool api w =
     (case (if filledBool then setWorkSiteFilled E (siteId s) api w
            else setWorkSiteEmpty E (siteId s) api w) of
        (Inl err, api1, w1) \<Rightarrow> (api1, emit (EError (RdsFailedMsg (siteId s))) w1)
      | (Inr v, api1, w1) \<Rightarrow> (api1, w1))"

fun setSitesDefault :: "env \<Rightarrow> site list \<Rightarrow> APIClient \<Rightarrow> world \<Rightarrow> APIClient \<times> world" where
  "setSitesDefault E [] api w = (api, w)"
| "setSitesDefault E (s # ss) api w =
     (case writeWorksiteState E s (defaultToBool (defaultState s)) api w of
        (api1, w1) \<Rightarrow> setSitesDefault E ss api1 w1)"

definition reset_sites :: "site list \<Rightarrow> world \<Rightarrow> world" where
  "reset_sites ss w =
     w\<lparr>siteDebounceStates := resetDebounceForSites ss (siteDebounceStates w)\<rparr>"

text \<open>\<open>inputs[idx]\<close>: \<open>undefined\<close> outside the array.\<close>

definition input_at :: "bool list \<Rightarrow> int \<Rightarrow> bool option" where
  "input_at inputs idx =
     (if 0 \<le> idx \<and> nat idx < length inputs then Some (inputs ! nat idx) else None)"

text \<open>The loop over the sites of a group whose inputs were read; it is the same in both
  copies of the file.\<close>

fun sync_sites :: "env \<Rightarrow> int \<Rightarrow> bool list \<Rightarrow> site list \<Rightarrow> APIClient \<Rightarrow> world \<Rightarrow> APIClient \<times> world" where
  "sync_sites E minOff inputs [] api w = (api, w)"
| "sync_sites E minOff inputs (s # ss) api w =
     (let idx = js_sub (offset s) minOff
      in case input_at inputs idx of
           None \<Rightarrow>
             (let w1 = emit (EError (MissingInputMsg (siteId s) idx (offset s))) w;
                  w2 = reset_sites [s] w1
              in case setSitesDefault E [s] api w2 of
                   (api1, w3) \<Rightarrow> sync_sites E minOff inputs ss api1 w3)
         | Some rawVal \<Rightarrow>
             (let now = Date_now E (steps w);
                  w1 = tick w;
                  (effectiveBool, m) = updateDebouncedState s rawVal now (siteDebounceStates w1);
                  w2 = w1\<lparr>siteDebounceStates := m\<rparr>
              in case writeWorksiteState E s effectiveBool api w2 of
                   (api1, w3) \<Rightarrow> sync_sites E minOff inputs ss api1 w3))"

text \<open>The initial login of \<open>syncOnce\<close>; a failure is logged and the cycle goes on.\<close>

definition initial_login :: "env \<Rightarrow> APIClient \<Rightarrow> world \<Rightarrow> APIClient \<times> world" where
  "initial_login E api w =
     (if \<not> truthy (sessionId api)
      then (case login E api w of
              (Inl err, api1, w1) \<Rightarrow> (api1, emit (EError InitialLoginFailedMsg) w1)
            | (Inr u, api1, w1) \<Rightarrow> (api1, w1))
      else (api, w))"

subsection \<open>\<^verbatim>\<open>src/modbus-sync-worksites.js\<close>\<close>

text \<open>The body of the loop over \<open>GROUPS\<close>: whatever \<open>readInputsForGroup\<close> throws lands in
  the one \<open>catch\<close>.\<close>

definition sync_group :: "env \<Rightarrow> group \<Rightarrow> APIClient \<Rightarrow> world \<Rightarrow> APIClient \<times> world" where
  "sync_group E g api w =
     (case readInputsForGroup E g w of
        (Inl err, w1) \<Rightarrow> setSitesDefault E (sites g) api (reset_sites (sites g) w1)
      | (Inr inputs, w1) \<Rightarrow> sync_sites E (minOffset g) inputs (sites g) api w1)"

fun sync_groups :: "env \<Rightarrow> group list \<Rightarrow> APIClient \<Rightarrow> world \<Rightarrow> APIClient \<times> world" where
  "sync_groups E [] api w = (api, w)"
| "sync_groups E (g # gs) api w =
     (case sync_group E g api w of (api1, w1) \<Rightarrow> sync_groups E gs api1 w1)"

definition syncOnce :: "env \<Rightarrow> group list \<Rightarrow> APIClient \<Rightarrow> world \<Rightarrow> APIClient \<times> world" where
  "syncOnce E GROUPS api w =
     (case initial_login E api w of (api1, w1) \<Rightarrow> sync_groups E GROUPS api1 w1)"

subsection \<open>The second copy of the file\<close>

definition sync_group_tagged :: "env \<Rightarrow> group \<Rightarrow> APIClient \<Rightarrow> world \<Rightarrow> APIClient \<times> world" where
  "sync_group_tagged E g api w =
     (case readInputsForGroup_tagged E g w of
        (StatusBackoff, w1) \<Rightarrow> (api, w1)
      | (StatusError msg, w1) \<Rightarrow>
          setSitesDefault E (sites g) api
            (reset_sites (sites g) (emit (EError (GroupErrorMsg (key g) msg)) w1))
      | (StatusOk inputs, w1) \<Rightarrow> sync_sites E (minOffset g) inputs (sites g) api w1)"

fun sync_groups_tagged :: "env \<Rightarrow> group list \<Rightarrow> APIClient \<Rightarrow> world \<Rightarrow> APIClient \<times> world" where
  "sync_groups_tagged E [] api w = (api, w)"
| "sync_groups_tagged E (g # gs) api w =
     (case sync_group_tagged E g api w of (api1, w1) \<Rightarrow> sync_groups_tagged E gs api1 w1)"

definition syncOnce_tagged :: "env \<Rightarrow> group list \<Rightarrow> APIClient \<Rightarrow> world \<Rightarrow> APIClient \<times> world" where
  "syncOnce_tagged E GROUPS api w =
     (case initial_login E api w of (api1, w1) \<Rightarrow> sync_groups_tagged E GROUPS api1 w1)"

section \<open>A concrete configuration\<close>

text \<open>The site of the shipped \<open>SITES\<close> table, and two of its commented-out
  neighbours on the same controller.\<close>

definition PICK_01 :: site where
  "PICK_01 = \<lparr>siteId = ''PICK-01'', ip = ''10.6.44.70'', port = 502, slaveId = 255,
               offset = 9, defaultState = EMPTY\<rparr>"


definition PICK_02 :: site where
  "PICK_02 = \<lparr>siteId = ''PICK-02'', ip = ''10.6.44.70'', port = 502, slaveId = 255,
               offset = 10, defaultState = EMPTY\<rparr>"

definition DROP_02 :: site where
  "DROP_02 = \<lparr>siteId = ''DROP-02'', ip = ''10.6.44.70'', port = 502, slaveId = 255,
               offset = 12, defaultState = FILLED\<rparr>"

text \<open>Two sites of one controller whose offsets are \<open>0\<close> and \<open>2^53\<close>, and a world in
  which the client of that controller is open.\<close>

definition WIDE_0 :: site where
  "WIDE_0 = \<lparr>siteId = ''WIDE-0'', ip = ''10.6.44.71'', port = 502, slaveId = 1,
              offset = 0, defaultState = EMPTY\<rparr>"

definition WIDE_1 :: site where
  "WIDE_1 = \<lparr>siteId = ''WIDE-1'', ip = ''10.6.44.71'', port = 502, slaveId = 1,
              offset = 9007199254740992, defaultState = EMPTY\<rparr>"

definition wide_open :: world where
  "wide_open =
     \<lparr>modbusStates = [''10.6.44.71:502:1'' \<mapsto>
         \<lparr>client = Some (Client ''10.6.44.71'' 502 1), lastAttempt = 5000\<rparr>],
      siteDebounceStates = Map.empty, trace = [], steps = 0\<rparr>"

definition GROUP_70 :: group where
  "GROUP_70 = \<lparr>key = ''10.6.44.70:502:255'', g_ip = ''10.6.44.70'', g_port = 502,
                g_slaveId = 255, sites = [PICK_01], minOffset = 9, length_g = 1\<rparr>"

text \<open>
  An environment for examples: the clock always shows \<open>now\<close>, connecting succeeds, every
  read is answered with \<open>rd\<close>, and the \<open>n\<close>-th interaction, when it is a \<open>fetch\<close>, is
  answered with the \<open>n\<close>-th entry of \<open>rs\<close> (refused beyond the list). The digest and
  the parser are given on the texts the examples use: \<open>md5("123456")\<close>, and the JSON
  texts \<open>{}\<close> and \<open>null\<close>.
\<close>

definition example_env :: "int \<Rightarrow> read_result \<Rightarrow> fetch_result list \<Rightarrow> env" where
  "example_env now rd rs =
     \<lparr>Date_now = (\<lambda>n. now),
      connectTCP = (\<lambda>n. None),
      readDiscreteInputs = (\<lambda>n. rd),
      fetch = (\<lambda>n. if n < length rs then rs ! n else FetchRejected ''ECONNREFUSED''),
      md5 = (\<lambda>p. if p = ''123456'' then ''e10adc3949ba59abbe56e057f20f883e'' else []),
      JSON_parse = (\<lambda>t. if t = ''{}'' then Some (JObj [])
                         else if t = ''null'' then Some JNull else None)\<rparr>"

definition ok_response :: fetch_result where
  "ok_response = FetchResponse \<lparr>status = 200, set_cookie = None, text_of = ''{}''\<rparr>"

definition RDS :: APIClient where
  "RDS = \<lparr>apiHost = ''http://10.6.44.2:8080'', username = ''admin'', password = ''123456'',
          sessionId = Some ''A1B2'', language = ''en''\<rparr>"

text \<open>
  A world in which the controller of \<open>GROUP_70\<close> has no client and the last attempt was at
  5000, while \<open>PICK-01\<close> had switched to FILLED.
\<close>

definition disconnected :: world where
  "disconnected =
     \<lparr>modbusStates = [''10.6.44.70:502:255'' \<mapsto> \<lparr>client = None, lastAttempt = 5000\<rparr>],
      siteDebounceStates =
        [''PICK-01'' \<mapsto> \<lparr>lastOppositeStartTs = Some 1000, effectiveVal = True\<rparr>],
      trace = [], steps = 0\<rparr>"

text \<open>The same with an open client, connected at 5000.\<close>

definition connected :: world where
  "connected =
     \<lparr>modbusStates = [''10.6.44.70:502:255'' \<mapsto>
         \<lparr>client = Some (Client ''10.6.44.70'' 502 255), lastAttempt = 5000\<rparr>],
      siteDebounceStates =
        [''PICK-01'' \<mapsto> \<lparr>lastOppositeStartTs = Some 1000, effectiveVal = True\<rparr>],
      trace = [], steps = 0\<rparr>"

text \<open>A world in which nothing has happened yet, and some answers of the dispatcher.\<close>

definition idle :: world where
  "idle = \<lparr>modbusStates = Map.empty, siteDebounceStates = Map.empty, trace = [], steps = 0\<rparr>"

definition expired_response :: fetch_result where
  "expired_response = FetchResponse \<lparr>status = 401, set_cookie = None, text_of = []\<rparr>"

definition bad_request :: fetch_result where
  "bad_request = FetchResponse \<lparr>status = 400, set_cookie = None, text_of = ''bad''\<rparr>"

definition login_response :: "string \<Rightarrow> fetch_result" where
  "login_response t = FetchResponse
     \<lparr>status = 200, set_cookie = Some ''JSESSIONID=C3D4; Path=/; HttpOnly'', text_of = t\<rparr>"

definition unfiled :: options where
  "unfiled = \<lparr>http_method = ''POST'', headers = [],
              body = Some (JObj [(''workSiteIds'', JArr [JStr ''PICK-01''])])\<rparr>"


text \<open>The client before its first login, and two successful answers: one with an empty
  body, one whose body is the text \<open>OK\<close>.\<close>

definition RDS_out :: APIClient where
  "RDS_out = \<lparr>apiHost = ''http://10.6.44.2:8080'', username = ''admin'', password = ''123456'',
          sessionId = None, language = ''en''\<rparr>"

definition empty_response :: fetch_result where
  "empty_response = FetchResponse \<lparr>status = 200, set_cookie = None, text_of = []\<rparr>"

definition text_response :: fetch_result where
  "text_response = FetchResponse \<lparr>status = 200, set_cookie = None, text_of = ''OK''\<rparr>"

section \<open>Bookkeeping of the world\<close>

lemma world_simps [simp]:
  "trace (emit e w) = trace w @ [e]" "steps (emit e w) = steps w"
  "modbusStates (emit e w) = modbusStates w" "siteDebounceStates (emit e w) = siteDebounceStates w"
  "trace (tick w) = trace w" "steps (tick w) = steps w + 1"
  "modbusStates (tick w) = modbusStates w" "siteDebounceStates (tick w) = siteDebounceStates w"
  "trace (set_state k st w) = trace w" "steps (set_state k st w) = steps w"
  "modbusStates (set_state k st w) = (modbusStates w)(k \<mapsto> st)"
  "siteDebounceStates (set_state k st w) = siteDebounceStates w"
  by (simp_all add: emit_def tick_def set_state_def)

lemma added_simps [simp]:
  "added w w = []"
  "trace w' = trace w @ es \<Longrightarrow> added w w' = es"
  by (simp_all add: added_def)

lemma fetches_to_simps [simp]:
  "fetches_to u [] = 0"
  "fetches_to u (es @ es') = fetches_to u es + fetches_to u es'"
  "fetches_to u (EFetch u' opts # es) = (if u' = u then 1 else 0) + fetches_to u es"
  "fetches_to u (ELog m # es) = fetches_to u es"
  "fetches_to u (EError m # es) = fetches_to u es"
  by (simp_all add: fetches_to_def)

lemma example_steps [simp]: "steps idle = 0" "trace idle = []"
  by (simp_all add: idle_def)

lemma example_fetch [simp]:
  "fetch (example_env now rd rs) n = (if n < length rs then rs ! n else FetchRejected ''ECONNREFUSED'')"
  "JSON_parse (example_env now rd rs) t =
     (if t = ''{}'' then Some (JObj []) else if t = ''null'' then Some JNull else None)"
  by (simp_all add: example_env_def)

lemma login_response_succeeds:
  "login_succeeds (example_env now rd rs)
     \<lparr>status = 200, set_cookie = Some ''JSESSIONID=C3D4; Path=/; HttpOnly'', text_of = ''{}''\<rparr>"
  by (simp add: login_succeeds_def ok_def truthy_def json_of_def)

section \<open>The debouncer\<close>

text \<open>
  C1. \<open>updateDebouncedState\<close> is the default-biased hysteresis of the specification,
  with the default bit \<open>d\<close> true exactly for a site whose default is FILLED, and with
  the state of a site that has none yet being the fresh one (no start, effective value
  \<open>d\<close>): a raw sample equal to \<open>d\<close> clears \<open>lastOppositeStartTs\<close> and yields \<open>d\<close>;
  a differing sample with no start recorded records \<open>now\<close> and yields \<open>d\<close>; a
  differing sample at least \<open>FILL_DEBOUNCE_MS\<close> after the recorded start yields the
  opposite of \<open>d\<close>; any other differing sample yields the stored effective value
  and leaves the state as it was. A sample exactly \<open>FILL_DEBOUNCE_MS\<close> after the start
  is accepted, an earlier one is not. No other site's state changes.
\<close>

theorem updateDebouncedState_hysteresis:
  fixes s :: site and rawVal :: bool and now :: int and m :: dstates
  defines "d \<equiv> (defaultState s = FILLED)"
  defines "st0 \<equiv> (case m (siteId s) of
                      None \<Rightarrow> \<lparr>lastOppositeStartTs = None, effectiveVal = d\<rparr>
                    | Some st \<Rightarrow> st)"
  defines "r \<equiv> updateDebouncedState s rawVal now m"
  shows "(rawVal = d \<longrightarrow>
            fst r = d \<and>
            snd r (siteId s) = Some \<lparr>lastOppositeStartTs = None, effectiveVal = d\<rparr>)
       \<and> (rawVal \<noteq> d \<and> lastOppositeStartTs st0 = None \<longrightarrow>
            fst r = d \<and>
            snd r (siteId s) = Some \<lparr>lastOppositeStartTs = Some now, effectiveVal = d\<rparr>)
       \<and> (\<forall>t. rawVal \<noteq> d \<and> lastOppositeStartTs st0 = Some t
               \<and> now - t \<ge> FILL_DEBOUNCE_MS \<longrightarrow>
            fst r = (\<not> d) \<and>
            snd r (siteId s) = Some \<lparr>lastOppositeStartTs = Some t, effectiveVal = (\<not> d)\<rparr>)
       \<and> (\<forall>t. rawVal \<noteq> d \<and> lastOppositeStartTs st0 = Some t
               \<and> now - t < FILL_DEBOUNCE_MS \<longrightarrow>
            fst r = effectiveVal st0 \<and>
            snd r (siteId s) = Some st0)
       \<and> (\<forall>t. rawVal \<noteq> d \<and> lastOppositeStartTs st0 = Some t
               \<and> now = t + FILL_DEBOUNCE_MS \<longrightarrow> fst r = (\<not> d))
       \<and> (\<forall>t. rawVal \<noteq> d \<and> lastOppositeStartTs st0 = Some t
               \<and> now < t + FILL_DEBOUNCE_MS \<longrightarrow> fst r = effectiveVal st0)
       \<and> (\<forall>k. k \<noteq> siteId s \<longrightarrow> snd r k = m k)"
  unfolding d_def st0_def r_def
  by (cases "m (siteId s)")
     (auto simp: updateDebouncedState_def defaultToBool_def Let_def split: option.splits)

theorem updateDebouncedState_hysteresis_witness:
  "fst (updateDebouncedState PICK_01 False 0 Map.empty) = False
   \<and> fst (updateDebouncedState PICK_01 True 500 Map.empty) = False
   \<and> snd (updateDebouncedState PICK_01 True 500 Map.empty) ''PICK-01''
       = Some \<lparr>lastOppositeStartTs = Some 500, effectiveVal = False\<rparr>
   \<and> fst (updateDebouncedState PICK_01 True 2500
            [''PICK-01'' \<mapsto> \<lparr>lastOppositeStartTs = Some 500, effectiveVal = False\<rparr>]) = True
   \<and> fst (updateDebouncedState PICK_01 True 2499
            [''PICK-01'' \<mapsto> \<lparr>lastOppositeStartTs = Some 500, effectiveVal = False\<rparr>]) = False
   \<and> snd (updateDebouncedState PICK_01 True 2499
            [''PICK-01'' \<mapsto> \<lparr>lastOppositeStartTs = Some 500, effectiveVal = False\<rparr>]) ''DROP-01''
       = None
   \<and> fst (updateDebouncedState DROP_02 True 0 Map.empty) = True
   \<and> snd (updateDebouncedState DROP_02 True 0 Map.empty) ''DROP-02''
       = Some \<lparr>lastOppositeStartTs = None, effectiveVal = True\<rparr>
   \<and> fst (updateDebouncedState DROP_02 False 500 Map.empty) = True
   \<and> snd (updateDebouncedState DROP_02 False 500 Map.empty) ''DROP-02''
       = Some \<lparr>lastOppositeStartTs = Some 500, effectiveVal = True\<rparr>
   \<and> fst (updateDebouncedState DROP_02 False 2500
            [''DROP-02'' \<mapsto> \<lparr>lastOppositeStartTs = Some 500, effectiveVal = True\<rparr>]) = False
   \<and> fst (updateDebouncedState DROP_02 False 2499
            [''DROP-02'' \<mapsto> \<lparr>lastOppositeStartTs = Some 500, effectiveVal = True\<rparr>]) = True"
  using updateDebouncedState_hysteresis [where s = PICK_01 and rawVal = False and now = 0
          and m = Map.empty]
        updateDebouncedState_hysteresis [where s = PICK_01 and rawVal = True and now = 500
          and m = Map.empty]
        updateDebouncedState_hysteresis [where s = PICK_01 and rawVal = True and now = 2500
          and m = "[''PICK-01'' \<mapsto> \<lparr>lastOppositeStartTs = Some 500, effectiveVal = False\<rparr>]"]
        updateDebouncedState_hysteresis [where s = PICK_01 and rawVal = True and now = 2499
          and m = "[''PICK-01'' \<mapsto> \<lparr>lastOppositeStartTs = Some 500, effectiveVal = False\<rparr>]"]
        updateDebouncedState_hysteresis [where s = DROP_02 and rawVal = True and now = 0
          and m = Map.empty]
        updateDebouncedState_hysteresis [where s = DROP_02 and rawVal = False and now = 500
          and m = Map.empty]
        updateDebouncedState_hysteresis [where s = DROP_02 and rawVal = False and now = 2500
          and m = "[''DROP-02'' \<mapsto> \<lparr>lastOppositeStartTs = Some 500, effectiveVal = True\<rparr>]"]
        updateDebouncedState_hysteresis [where s = DROP_02 and rawVal = False and now = 2499
          and m = "[''DROP-02'' \<mapsto> \<lparr>lastOppositeStartTs = Some 500, effectiveVal = True\<rparr>]"]
  by (simp add: PICK_01_def DROP_02_def FILL_DEBOUNCE_MS_def)

subsection \<open>Histories\<close>

lemma run_append: "run (es @ es') m = run es' (run es m)"
  by (induction es arbitrary: m) simp_all

lemma resetDebounceForSites_apply:
  "resetDebounceForSites ss m k = (if k \<in> siteId ` set ss then None else m k)"
  by (induction ss arbitrary: m) auto

lemma armed_update:
  assumes "armed s m" and "siteId s' = siteId s \<longrightarrow> defaultState s' = defaultState s"
  shows "armed s (snd (updateDebouncedState s' rawVal now m))"
proof (cases "siteId s' = siteId s")
  case True
  with assms show ?thesis
    by (auto simp: armed_def updateDebouncedState_def Let_def split: option.splits)
next
  case False
  with assms show ?thesis
    by (auto simp: armed_def updateDebouncedState_def Let_def split: option.splits)
qed

lemma armed_dstep:
  assumes "armed s m"
    and "\<forall>s' \<in> set (devent_sites e). siteId s' = siteId s \<longrightarrow> defaultState s' = defaultState s"
  shows "armed s (dstep e m)"
proof (cases e)
  case (Update s' rawVal now)
  with assms show ?thesis by (simp add: armed_update)
next
  case (Reset ss)
  with assms show ?thesis
    by (auto simp: armed_def resetDebounceForSites_apply split: option.splits)
qed

lemma armed_run: "armed s m \<Longrightarrow> consistent s es \<Longrightarrow> armed s (run es m)"
proof (induction es arbitrary: m)
  case Nil
  then show ?case by simp
next
  case (Cons e es)
  from Cons.prems have "armed s (dstep e m)"
    by (intro armed_dstep) (auto simp: consistent_def)
  moreover from Cons.prems have "consistent s es"
    by (simp add: consistent_def)
  ultimately show ?case using Cons.IH by simp
qed

text \<open>
  A switched site: its stored effective value is the opposite of its default and the start
  of the opposite signal is on record.
\<close>

lemma switched_dstep:
  assumes sw: "effectiveVal (stored s m) = (\<not> defaultToBool (defaultState s))"
    and ar: "armed s m"
    and co: "\<forall>s' \<in> set (devent_sites e). siteId s' = siteId s \<longrightarrow> defaultState s' = defaultState s"
    and kr: "keeps_raw s e"
  shows "effectiveVal (stored s (dstep e m)) = (\<not> defaultToBool (defaultState s))"
proof (cases e)
  case (Update s' rawVal now)
  show ?thesis
  proof (cases "siteId s' = siteId s")
    case True
    with Update co have "defaultState s' = defaultState s" by simp
    with True Update sw ar kr show ?thesis
      by (auto simp: stored_def armed_def updateDebouncedState_def Let_def
               split: option.splits)
  next
    case False
    with Update sw show ?thesis
      by (auto simp: stored_def updateDebouncedState_def Let_def split: option.splits)
  qed
next
  case (Reset ss)
  with sw kr show ?thesis
    by (auto simp: stored_def resetDebounceForSites_apply split: option.splits)
qed

lemma switched_run:
  assumes "effectiveVal (stored s m) = (\<not> defaultToBool (defaultState s))"
    and "armed s m" and "consistent s es" and "\<forall>e \<in> set es. keeps_raw s e"
  shows "effectiveVal (stored s (run es m)) = (\<not> defaultToBool (defaultState s))
         \<and> armed s (run es m)"
  using assms
proof (induction es arbitrary: m)
  case Nil
  then show ?case by simp
next
  case (Cons e es)
  have co: "\<forall>s' \<in> set (devent_sites e). siteId s' = siteId s \<longrightarrow> defaultState s' = defaultState s"
    using Cons.prems(3) by (simp add: consistent_def)
  have "effectiveVal (stored s (dstep e m)) = (\<not> defaultToBool (defaultState s))"
    using Cons.prems co by (intro switched_dstep) simp_all
  moreover have "armed s (dstep e m)"
    using Cons.prems(2) co by (rule armed_dstep)
  moreover have "consistent s es" "\<forall>e \<in> set es. keeps_raw s e"
    using Cons.prems by (simp_all add: consistent_def)
  ultimately show ?case using Cons.IH by simp
qed

lemma switched_update:
  assumes "effectiveVal (stored s m) = (\<not> defaultToBool (defaultState s))"
    and "armed s m" and "siteId s' = siteId s" and "defaultState s' = defaultState s"
  shows "fst (updateDebouncedState s' (\<not> defaultToBool (defaultState s)) now m)
         = (\<not> defaultToBool (defaultState s))"
  using assms
  by (auto simp: stored_def armed_def updateDebouncedState_def Let_def split: option.splits)

text \<open>
  A configuration that passed \<open>validateConfig\<close> has distinct, non-empty ids and
  non-negative offsets, so every history over its sites is consistent.
\<close>

lemma validate_loop_ok:
  "validate_loop ss seen = None \<Longrightarrow>
   distinct (map siteId ss) \<and> set (map siteId ss) \<inter> set seen = {}
   \<and> (\<forall>s \<in> set ss. siteId s \<noteq> [] \<and> 0 \<le> offset s)"
proof (induction ss arbitrary: seen)
  case Nil
  then show ?case by simp
next
  case (Cons a ss)
  from Cons.prems have a: "siteId a \<noteq> []" "siteId a \<notin> set seen" "0 \<le> offset a"
    and r: "validate_loop ss (siteId a # seen) = None"
    by (auto split: if_splits)
  from Cons.IH [OF r] have d: "distinct (map siteId ss)"
    and i: "set (map siteId ss) \<inter> set (siteId a # seen) = {}"
    and o: "\<forall>s \<in> set ss. siteId s \<noteq> [] \<and> 0 \<le> offset s"
    by blast+
  from i have "siteId a \<notin> set (map siteId ss)" "set (map siteId ss) \<inter> set seen = {}"
    by auto
  with a d o show ?case
    by auto
qed

lemma validateConfig_ok:
  assumes "validateConfig SITES = None"
  shows "distinct (map siteId SITES)"
    and "\<forall>s \<in> set SITES. siteId s \<noteq> [] \<and> 0 \<le> offset s"
  using validate_loop_ok [of SITES "[]"] assms by (simp_all add: validateConfig_def)

lemma validated_history_is_consistent:
  assumes "validateConfig SITES = None" and "s \<in> set SITES"
    and "\<forall>e \<in> set es. set (devent_sites e) \<subseteq> set SITES"
  shows "consistent s es"
proof -
  from validateConfig_ok(1) [OF assms(1)] have "inj_on siteId (set SITES)"
    by (simp add: distinct_map)
  with assms(2,3) show ?thesis
    unfolding consistent_def by (metis inj_onD subsetD)
qed

text \<open>
  C10. Take any history \<open>es\<close> of updates and resets from the empty map after which the
  stored effective value of a site is the opposite of its default, and let it continue
  with events \<open>es'\<close> in which every update of the site carries a raw sample that still
  disagrees with the default and no reset names the site. Then every update of the site
  in the continuation returns the opposite state, whatever timestamps are passed.
\<close>

theorem switched_value_is_kept:
  assumes "consistent s (es @ es')"
    and "effectiveVal (stored s (run es Map.empty)) = (\<not> defaultToBool (defaultState s))"
    and "\<forall>e \<in> set es'. keeps_raw s e"
    and "es' = pre @ Update s' rawVal now # post"
    and "siteId s' = siteId s"
  shows "fst (updateDebouncedState s' rawVal now (run (es @ pre) Map.empty))
         = (\<not> defaultToBool (defaultState s))
       \<and> effectiveVal (stored s (run (es @ es') Map.empty))
         = (\<not> defaultToBool (defaultState s))"
proof -
  let ?m = "run es Map.empty"
  have c1: "consistent s es" and c2: "consistent s es'" and c3: "consistent s pre"
    using assms(1,4) by (auto simp: consistent_def)
  have a0: "armed s ?m"
    using c1 by (intro armed_run) (simp_all add: armed_def)
  have kp: "\<forall>e \<in> set pre. keeps_raw s e"
    using assms(3,4) by simp
  have sp: "effectiveVal (stored s (run pre ?m)) = (\<not> defaultToBool (defaultState s))
            \<and> armed s (run pre ?m)"
    using assms(2) a0 c3 kp by (rule switched_run)
  have ds: "defaultState s' = defaultState s"
    using assms(1,4,5) by (auto simp: consistent_def)
  have rv: "rawVal = (\<not> defaultToBool (defaultState s))"
    using assms(3,4,5) by auto
  have "fst (updateDebouncedState s' rawVal now (run pre ?m))
        = (\<not> defaultToBool (defaultState s))"
    unfolding rv using sp assms(5) ds by (intro switched_update) simp_all
  moreover have "effectiveVal (stored s (run es' ?m)) = (\<not> defaultToBool (defaultState s))"
    using switched_run [OF assms(2) a0 c2 assms(3)] by simp
  ultimately show ?thesis by (simp add: run_append)
qed

theorem switched_value_is_kept_witness:
  "effectiveVal (stored PICK_01 (run [Update PICK_01 True 0, Update PICK_01 True 2000] Map.empty))
       = (\<not> defaultToBool (defaultState PICK_01))
   \<and> fst (updateDebouncedState PICK_01 True 1
            (run ([Update PICK_01 True 0, Update PICK_01 True 2000] @ []) Map.empty)) = True
   \<and> effectiveVal (stored PICK_01
         (run ([Update PICK_01 True 0, Update PICK_01 True 2000]
               @ [Update PICK_01 True 1, Update PICK_01 True 5000]) Map.empty)) = True"
proof -
  have h1: "consistent PICK_01 ([Update PICK_01 True 0, Update PICK_01 True 2000]
                        @ [Update PICK_01 True 1, Update PICK_01 True 5000])"
    by (simp add: consistent_def)
  have h2: "effectiveVal (stored PICK_01 (run [Update PICK_01 True 0, Update PICK_01 True 2000] Map.empty))
       = (\<not> defaultToBool (defaultState PICK_01))"
    by (simp add: stored_def updateDebouncedState_def PICK_01_def defaultToBool_def
                  FILL_DEBOUNCE_MS_def Let_def)
  have h3: "\<forall>e \<in> set [Update PICK_01 True 1, Update PICK_01 True 5000]. keeps_raw PICK_01 e"
    by (simp add: PICK_01_def defaultToBool_def)
  have h4: "[Update PICK_01 True 1, Update PICK_01 True 5000]
            = [] @ Update PICK_01 True 1 # [Update PICK_01 True 5000]"
    by simp
  show ?thesis
    using h2 switched_value_is_kept [OF h1 h2 h3 h4 refl]
    by (simp add: PICK_01_def defaultToBool_def)
qed

section \<open>The read window of a group\<close>

lemma add_site_fields:
  "a_sites (add_site s g) = a_sites g @ [s]"
  "a_key (add_site s g) = a_key g"
  "a_minOffset (add_site s g) = min (offset s) (a_minOffset g)"
  "a_maxOffset (add_site s g) = max (offset s) (a_maxOffset g)"
  by (auto simp: add_site_def Let_def)

lemma groupedD:
  assumes "grouped seen m" and "map_of m k = Some g"
  shows "a_key g = k" and "a_sites g = filter (\<lambda>s. site_key s = k) seen"
    and "a_sites g \<noteq> []"
    and "a_minOffset g = Min (offset ` set (a_sites g))"
    and "a_maxOffset g = Max (offset ` set (a_sites g))"
  using assms unfolding grouped_def by blast+

lemma grouped_step:
  assumes "grouped seen m"
  shows "grouped (seen @ [s]) (group_step s m)"
proof (cases "map_of m (site_key s)")
  case None
  let ?k = "site_key s"
  let ?g = "add_site s \<lparr>a_key = ?k, a_ip = ip s, a_port = port s,
                          a_slaveId = slaveId s, a_sites = [],
                          a_minOffset = offset s, a_maxOffset = offset s\<rparr>"
  have st: "group_step s m = m @ [(?k, ?g)]"
    using None by (simp add: group_step_def Let_def)
  have nk: "?k \<notin> fst ` set m"
    using None by (simp add: map_of_eq_None_iff)
  have "\<forall>s' \<in> set seen. site_key s' \<in> fst ` set m"
    using assms unfolding grouped_def by blast
  with nk have "\<forall>s' \<in> set seen. site_key s' \<noteq> ?k"
    by metis
  then have nf: "filter (\<lambda>s'. site_key s' = ?k) seen = []"
    by (simp add: filter_empty_conv)
  show ?thesis
    unfolding st grouped_def
  proof (intro conjI allI impI ballI)
    show "distinct (map fst (m @ [(?k, ?g)]))"
      using assms nk by (simp add: grouped_def)
  next
    fix s' assume "s' \<in> set (seen @ [s])"
    then show "site_key s' \<in> fst ` set (m @ [(?k, ?g)])"
      using assms by (auto simp: grouped_def)
  next
    fix k g assume h: "map_of (m @ [(?k, ?g)]) k = Some g"
    show "a_key g = k" "a_sites g = filter (\<lambda>s. site_key s = k) (seen @ [s])" "a_sites g \<noteq> []"
         "a_minOffset g = Min (offset ` set (a_sites g))"
         "a_maxOffset g = Max (offset ` set (a_sites g))"
    proof -
      consider (old) "map_of m k = Some g" "k \<noteq> ?k" | (new) "k = ?k" "g = ?g"
        using h None by (auto simp: map_add_Some_iff split: if_splits)
      then have "a_key g = k \<and> a_sites g = filter (\<lambda>s. site_key s = k) (seen @ [s]) \<and> a_sites g \<noteq> []
         \<and> a_minOffset g = Min (offset ` set (a_sites g))
         \<and> a_maxOffset g = Max (offset ` set (a_sites g))"
      proof cases
        case old
        from groupedD [OF assms old(1)] old(2) show ?thesis by simp
      next
        case new
        with nf show ?thesis by (simp add: add_site_fields)
      qed
      then show "a_key g = k" "a_sites g = filter (\<lambda>s. site_key s = k) (seen @ [s])" "a_sites g \<noteq> []"
         "a_minOffset g = Min (offset ` set (a_sites g))"
         "a_maxOffset g = Max (offset ` set (a_sites g))" by blast+
    qed
  qed
next
  case (Some g0)
  let ?k = "site_key s"
  have st: "group_step s m = AList.update ?k (add_site s g0) m"
    using Some by (simp add: group_step_def Let_def)
  have g0: "a_key g0 = ?k" "a_sites g0 = filter (\<lambda>s'. site_key s' = ?k) seen" "a_sites g0 \<noteq> []"
     "a_minOffset g0 = Min (offset ` set (a_sites g0))"
     "a_maxOffset g0 = Max (offset ` set (a_sites g0))"
    using groupedD [OF assms Some] by blast+
  show ?thesis
    unfolding st grouped_def
  proof (intro conjI allI impI ballI)
    show "distinct (map fst (AList.update ?k (add_site s g0) m))"
      using assms by (simp add: grouped_def distinct_update)
  next
    fix s' assume "s' \<in> set (seen @ [s])"
    then show "site_key s' \<in> fst ` set (AList.update ?k (add_site s g0) m)"
      using assms by (auto simp: grouped_def dom_update)
  next
    fix k g assume h: "map_of (AList.update ?k (add_site s g0) m) k = Some g"
    show "a_key g = k" "a_sites g = filter (\<lambda>s. site_key s = k) (seen @ [s])" "a_sites g \<noteq> []"
         "a_minOffset g = Min (offset ` set (a_sites g))"
         "a_maxOffset g = Max (offset ` set (a_sites g))"
    proof -
      consider (old) "map_of m k = Some g" "k \<noteq> ?k" | (new) "k = ?k" "g = add_site s g0"
        using h by (auto simp: update_conv' split: if_splits)
      then have "a_key g = k \<and> a_sites g = filter (\<lambda>s. site_key s = k) (seen @ [s]) \<and> a_sites g \<noteq> []
         \<and> a_minOffset g = Min (offset ` set (a_sites g))
         \<and> a_maxOffset g = Max (offset ` set (a_sites g))"
      proof cases
        case old
        from groupedD [OF assms old(1)] old(2) show ?thesis by simp
      next
        case new
        have "Min (offset ` set (a_sites g0 @ [s])) = min (offset s) (Min (offset ` set (a_sites g0)))"
          using g0(3) by (simp add: Min_insert)
        moreover have "Max (offset ` set (a_sites g0 @ [s])) = max (offset s) (Max (offset ` set (a_sites g0)))"
          using g0(3) by (simp add: Max_insert)
        ultimately show ?thesis using new g0 by (simp add: add_site_fields)
      qed
      then show "a_key g = k" "a_sites g = filter (\<lambda>s. site_key s = k) (seen @ [s])" "a_sites g \<noteq> []"
         "a_minOffset g = Min (offset ` set (a_sites g))"
         "a_maxOffset g = Max (offset ` set (a_sites g))" by blast+
    qed
  qed
qed

lemma grouped_loop: "grouped seen m \<Longrightarrow> grouped (seen @ ss) (group_loop ss m)"
proof (induction ss arbitrary: seen m)
  case Nil
  then show ?case by simp
next
  case (Cons s ss)
  from Cons.prems have "grouped (seen @ [s]) (group_step s m)" by (rule grouped_step)
  from Cons.IH [OF this] show ?case by simp
qed

subsection \<open>Double arithmetic on small integers\<close>

lemma bit_length_le: "n < 2 ^ k \<Longrightarrow> bit_length n \<le> k"
proof (induction k arbitrary: n)
  case 0
  then show ?case by (simp add: bit_length.simps)
next
  case (Suc k)
  show ?case
  proof (cases "n = 0")
    case True
    then show ?thesis by (simp add: bit_length.simps)
  next
    case False
    from Suc.prems have "n div 2 < 2 ^ k" by simp
    from Suc.IH [OF this] False show ?thesis
      by (subst bit_length.simps) simp
  qed
qed

lemma round_double_small:
  assumes "\<bar>x\<bar> < 2 ^ 53"
  shows "round_double x = x"
proof -
  from assms have "nat \<bar>x\<bar> < 2 ^ 53"
    by (simp add: nat_less_iff)
  then have "bit_length (nat \<bar>x\<bar>) - 53 = 0"
    using bit_length_le [of "nat \<bar>x\<bar>" 53] by simp
  then show ?thesis
    by (simp add: round_double_def Let_def mult_sgn_abs)
qed

lemma bit_length_eq:
  "2 ^ k \<le> n \<Longrightarrow> n < 2 ^ Suc k \<Longrightarrow> bit_length n = Suc k"
proof (induction k arbitrary: n)
  case 0
  then have "n = 1" by simp
  then show ?case by (simp add: bit_length.simps)
next
  case (Suc k)
  from Suc.prems have "2 ^ k \<le> n div 2" and "n div 2 < 2 ^ Suc k" and "n \<noteq> 0"
    by auto
  with Suc.IH [of "n div 2"] show ?case
    by (subst bit_length.simps) simp
qed

lemma bit_length_2_53: "bit_length 9007199254740992 = 54"
  using bit_length_eq [of 53 9007199254740992] by simp

lemma bit_length_past_2_53: "bit_length 9007199254740993 = 54"
  using bit_length_eq [of 53 9007199254740993] by simp

lemma round_double_2_53: "round_double 9007199254740992 = 9007199254740992"
  by (simp add: round_double_def Let_def bit_length_2_53)

lemma round_double_past_2_53: "round_double 9007199254740993 = 9007199254740992"
  by (simp add: round_double_def Let_def bit_length_past_2_53)



lemma length_exact:
  assumes "0 \<le> hi - lo" and "hi - lo < 2 ^ 53"
  shows "js_add (js_sub hi lo) 1 = hi - lo + 1"
proof -
  define x where "x = hi - lo"
  from assms have x: "0 \<le> x" "x < 9007199254740992"
    by (simp_all add: x_def)
  then have "\<bar>x\<bar> < 2 ^ 53"
    by simp
  then have s: "round_double x = x"
    by (rule round_double_small)
  have a: "round_double (x + 1) = x + 1"
  proof (cases "x + 1 = 9007199254740992")
    case True
    then show ?thesis by (simp only: round_double_2_53)
  next
    case False
    with x have "\<bar>x + 1\<bar> < 2 ^ 53"
      by simp
    then show ?thesis by (rule round_double_small)
  qed
  show ?thesis
    unfolding js_add_def js_sub_def x_def [symmetric] s a ..
qed

lemma length_wide: "js_add (js_sub 9007199254740992 0) 1 = 9007199254740992"
  by (simp add: js_add_def js_sub_def round_double_2_53 round_double_past_2_53)

subsection \<open>What a group holds and what is read\<close>

lemma group_window:
  assumes "g \<in> set (groupSitesByConnection ss)"
  shows "sites g = filter (\<lambda>s. site_key s = key g) ss"
    and "sites g \<noteq> []"
    and "minOffset g = Min (offset ` set (sites g))"
    and "length_g g = js_add (js_sub (Max (offset ` set (sites g)))
                                    (Min (offset ` set (sites g)))) 1"
proof -
  have "grouped [] []"
    by (simp add: grouped_def)
  from grouped_loop [OF this, of ss] have G: "grouped ss (group_loop ss [])"
    by simp
  from assms obtain k a where ka: "(k, a) \<in> set (group_loop ss [])" and g: "g = finish_group a"
    by (auto simp: groupSitesByConnection_def)
  from G have "distinct (map fst (group_loop ss []))"
    unfolding grouped_def by blast
  with ka have "map_of (group_loop ss []) k = Some a"
    by simp
  from groupedD [OF G this]
  have "a_key a = k" "a_sites a = filter (\<lambda>s. site_key s = k) ss" "a_sites a \<noteq> []"
     "a_minOffset a = Min (offset ` set (a_sites a))"
     "a_maxOffset a = Max (offset ` set (a_sites a))"
    by blast+
  then show "sites g = filter (\<lambda>s. site_key s = key g) ss" "sites g \<noteq> []"
    "minOffset g = Min (offset ` set (sites g))"
    "length_g g = js_add (js_sub (Max (offset ` set (sites g)))
                                 (Min (offset ` set (sites g)))) 1"
    by (simp_all add: g finish_group_def)
qed

text \<open>
  Every \<open>readDiscreteInputs\<close> that a call of \<open>readInputsForGroup\<close> issues, in either
  copy of the file, asks for \<open>group.minOffset\<close> and for 1 or \<open>group.length\<close>; and with
  an open client in the state of the group the call does issue one.
\<close>

lemma read_inputs_trace:
  "\<exists>rest. trace (snd (read_inputs E g c w))
            = trace w @ ERead c (startAddr g) (readLength g) # rest
          \<and> (\<forall>c' a n. ERead c' a n \<notin> set rest)"
  by (simp add: read_inputs_def read_failed_def Let_def split: read_result.splits)

lemma read_inputs_tagged_trace:
  "\<exists>rest. trace (snd (read_inputs_tagged E g c w))
            = trace w @ ERead c (startAddr g) (readLength g) # rest
          \<and> (\<forall>c' a n. ERead c' a n \<notin> set rest)"
  by (simp add: read_inputs_tagged_def Let_def split: read_result.splits)

lemma state_of_group:
  obtains st w2 where
    "(case modbusStates w (key g) of
        None \<Rightarrow> (\<lparr>client = None, lastAttempt = 0\<rparr>,
                  set_state (key g) \<lparr>client = None, lastAttempt = 0\<rparr> (tick w))
      | Some st \<Rightarrow> (st, tick w)) = (st, w2)"
    and "trace w2 = trace w" and "steps w2 = steps w + 1"
  by (cases "modbusStates w (key g)") simp_all

lemma readInputsForGroup_body:
  assumes "(case modbusStates w (key g) of
        None \<Rightarrow> (\<lparr>client = None, lastAttempt = 0\<rparr>,
                  set_state (key g) \<lparr>client = None, lastAttempt = 0\<rparr> (tick w))
      | Some st \<Rightarrow> (st, tick w)) = (st, w2)"
  shows "readInputsForGroup E g w =
     (case client st of
        Some c \<Rightarrow> read_inputs E g c w2
      | None \<Rightarrow>
          if Date_now E (steps w) - lastAttempt st < RECONNECT_BACKOFF_MS
          then (Inl BackoffError, w2)
          else (case connectTCP E (steps w2) of
                  Some msg \<Rightarrow>
                    (Inl (ModbusError msg),
                     tick (emit (EConnect (g_ip g) (g_port g))
                       (set_state (key g) (st\<lparr>lastAttempt := Date_now E (steps w)\<rparr>) w2)))
                | None \<Rightarrow>
                    read_inputs E g (Client (g_ip g) (g_port g) (g_slaveId g))
                      (set_state (key g)
                         \<lparr>client = Some (Client (g_ip g) (g_port g) (g_slaveId g)),
                          lastAttempt = Date_now E (steps w)\<rparr>
                         (tick (emit (EConnect (g_ip g) (g_port g))
                            (set_state (key g)
                               (st\<lparr>lastAttempt := Date_now E (steps w)\<rparr>) w2))))))"
  unfolding readInputsForGroup_def Let_def
  by (simp add: assms split: option.splits)

lemma readInputsForGroup_tagged_body:
  assumes "(case modbusStates w (key g) of
        None \<Rightarrow> (\<lparr>client = None, lastAttempt = 0\<rparr>,
                  set_state (key g) \<lparr>client = None, lastAttempt = 0\<rparr> (tick w))
      | Some st \<Rightarrow> (st, tick w)) = (st, w2)"
  shows "readInputsForGroup_tagged E g w =
     (case client st of
        Some c \<Rightarrow> read_inputs_tagged E g c w2
      | None \<Rightarrow>
          if lastAttempt st \<noteq> 0
             \<and> Date_now E (steps w) - lastAttempt st < RECONNECT_BACKOFF_MS
          then (StatusBackoff, w2)
          else (case connectTCP E (steps w2) of
                  Some msg \<Rightarrow>
                    (StatusError (''connect failed: '' @ msg),
                     tick (emit (EConnect (g_ip g) (g_port g))
                       (set_state (key g) (st\<lparr>lastAttempt := Date_now E (steps w)\<rparr>) w2)))
                | None \<Rightarrow>
                    read_inputs_tagged E g (Client (g_ip g) (g_port g) (g_slaveId g))
                      (set_state (key g)
                         \<lparr>client = Some (Client (g_ip g) (g_port g) (g_slaveId g)),
                          lastAttempt = Date_now E (steps w)\<rparr>
                         (tick (emit (EConnect (g_ip g) (g_port g))
                            (set_state (key g)
                               (st\<lparr>lastAttempt := Date_now E (steps w)\<rparr>) w2))))))"
  unfolding readInputsForGroup_tagged_def Let_def
  by (simp add: assms split: option.splits)

lemma reads_after:
  assumes "\<exists>rest. trace w3 = trace w2 @ ERead c A N # rest
                  \<and> (\<forall>c' a n. ERead c' a n \<notin> set rest)"
    and "trace w2 = trace w"
  shows "\<exists>es. trace w3 = trace w @ es
             \<and> (\<forall>c a n. ERead c a n \<in> set es \<longrightarrow> a = A \<and> n = N)"
  using assms by auto

lemma reads_after_connect:
  assumes "\<exists>rest. trace w3 = trace w2 @ ERead c A N # rest
                  \<and> (\<forall>c' a n. ERead c' a n \<notin> set rest)"
    and "trace w2 = trace w @ [EConnect i p]"
  shows "\<exists>es. trace w3 = trace w @ es
             \<and> (\<forall>c a n. ERead c a n \<in> set es \<longrightarrow> a = A \<and> n = N)"
  using assms by auto

lemma readInputsForGroup_trace:
  "\<exists>es. trace (snd (readInputsForGroup E g w)) = trace w @ es
        \<and> (\<forall>c a n. ERead c a n \<in> set es \<longrightarrow> a = startAddr g \<and> n = readLength g)"
proof -
  obtain st w2 where
    p: "(case modbusStates w (key g) of
        None \<Rightarrow> (\<lparr>client = None, lastAttempt = 0\<rparr>,
                  set_state (key g) \<lparr>client = None, lastAttempt = 0\<rparr> (tick w))
      | Some st \<Rightarrow> (st, tick w)) = (st, w2)"
    and t2: "trace w2 = trace w"
    by (rule state_of_group)
  note body = readInputsForGroup_body [OF p, of E]
  let ?w5 = "tick (emit (EConnect (g_ip g) (g_port g))
               (set_state (key g) (st\<lparr>lastAttempt := Date_now E (steps w)\<rparr>) w2))"
  let ?c = "Client (g_ip g) (g_port g) (g_slaveId g)"
  let ?w6 = "set_state (key g) \<lparr>client = Some ?c, lastAttempt = Date_now E (steps w)\<rparr> ?w5"
  have t5: "trace ?w5 = trace w @ [EConnect (g_ip g) (g_port g)]"
    by (simp add: t2)
  have t6: "trace ?w6 = trace w @ [EConnect (g_ip g) (g_port g)]"
    by (simp add: t2)
  show ?thesis
  proof (cases "client st")
    case (Some c)
    with body have r: "readInputsForGroup E g w = read_inputs E g c w2"
      by simp
    from read_inputs_trace [of E g c w2] t2 show ?thesis
      unfolding r by (rule reads_after)
  next
    case None
    show ?thesis
    proof (cases "Date_now E (steps w) - lastAttempt st < RECONNECT_BACKOFF_MS")
      case True
      with None body have "readInputsForGroup E g w = (Inl BackoffError, w2)"
        by simp
      with t2 show ?thesis
        by simp
    next
      case False
      show ?thesis
      proof (cases "connectTCP E (steps w2)")
        case (Some msg)
        with None False body have "readInputsForGroup E g w = (Inl (ModbusError msg), ?w5)"
          by simp
        with t5 show ?thesis
          by simp
      next
        case c: None
        with None False body have r: "readInputsForGroup E g w = read_inputs E g ?c ?w6"
          by simp
        from read_inputs_trace [of E g ?c ?w6] t6 show ?thesis
          unfolding r by (rule reads_after_connect)
      qed
    qed
  qed
qed

lemma readInputsForGroup_tagged_trace:
  "\<exists>es. trace (snd (readInputsForGroup_tagged E g w)) = trace w @ es
        \<and> (\<forall>c a n. ERead c a n \<in> set es \<longrightarrow> a = startAddr g \<and> n = readLength g)"
proof -
  obtain st w2 where
    p: "(case modbusStates w (key g) of
        None \<Rightarrow> (\<lparr>client = None, lastAttempt = 0\<rparr>,
                  set_state (key g) \<lparr>client = None, lastAttempt = 0\<rparr> (tick w))
      | Some st \<Rightarrow> (st, tick w)) = (st, w2)"
    and t2: "trace w2 = trace w"
    by (rule state_of_group)
  note body = readInputsForGroup_tagged_body [OF p, of E]
  let ?w5 = "tick (emit (EConnect (g_ip g) (g_port g))
               (set_state (key g) (st\<lparr>lastAttempt := Date_now E (steps w)\<rparr>) w2))"
  let ?c = "Client (g_ip g) (g_port g) (g_slaveId g)"
  let ?w6 = "set_state (key g) \<lparr>client = Some ?c, lastAttempt = Date_now E (steps w)\<rparr> ?w5"
  have t5: "trace ?w5 = trace w @ [EConnect (g_ip g) (g_port g)]"
    by (simp add: t2)
  have t6: "trace ?w6 = trace w @ [EConnect (g_ip g) (g_port g)]"
    by (simp add: t2)
  show ?thesis
  proof (cases "client st")
    case (Some c)
    with body have r: "readInputsForGroup_tagged E g w = read_inputs_tagged E g c w2"
      by simp
    from read_inputs_tagged_trace [of E g c w2] t2 show ?thesis
      unfolding r by (rule reads_after)
  next
    case None
    show ?thesis
    proof (cases "lastAttempt st \<noteq> 0 \<and> Date_now E (steps w) - lastAttempt st < RECONNECT_BACKOFF_MS")
      case True
      with None body have "readInputsForGroup_tagged E g w = (StatusBackoff, w2)"
        by simp
      with t2 show ?thesis
        by simp
    next
      case False
      show ?thesis
      proof (cases "connectTCP E (steps w2)")
        case (Some msg)
        with None False body
        have "readInputsForGroup_tagged E g w = (StatusError (''connect failed: '' @ msg), ?w5)"
          by (cases "lastAttempt st = 0") simp_all
        with t5 show ?thesis
          by simp
      next
        case c: None
        with None False body
        have r: "readInputsForGroup_tagged E g w = read_inputs_tagged E g ?c ?w6"
          by (cases "lastAttempt st = 0") simp_all
        from read_inputs_tagged_trace [of E g ?c ?w6] t6 show ?thesis
          unfolding r by (rule reads_after_connect)
      qed
    qed
  qed
qed

lemma reads_of_readInputsForGroup:
  assumes "ERead c a n \<in> set (added w (snd (readInputsForGroup E g w)))
           \<or> ERead c a n \<in> set (added w (snd (readInputsForGroup_tagged E g w)))"
  shows "a = minOffset g" and "n = (if length (sites g) = 1 then 1 else length_g g)"
proof -
  from readInputsForGroup_trace [of E g w] obtain es where
    es: "trace (snd (readInputsForGroup E g w)) = trace w @ es"
        "\<forall>c a n. ERead c a n \<in> set es \<longrightarrow> a = startAddr g \<and> n = readLength g"
    by blast
  from readInputsForGroup_tagged_trace [of E g w] obtain es' where
    es': "trace (snd (readInputsForGroup_tagged E g w)) = trace w @ es'"
         "\<forall>c a n. ERead c a n \<in> set es' \<longrightarrow> a = startAddr g \<and> n = readLength g"
    by blast
  from assms es(1) es'(1) have "ERead c a n \<in> set es \<or> ERead c a n \<in> set es'"
    by (simp add: added_def)
  with es(2) es'(2) have "a = startAddr g \<and> n = readLength g"
    by blast
  then show "a = minOffset g" and "n = (if length (sites g) = 1 then 1 else length_g g)"
    by (simp_all add: startAddr_def readLength_def)
qed

lemma open_client_reads:
  assumes "modbusStates w (key g) = Some st" and "client st = Some c"
  shows "ERead c (minOffset g) (if length (sites g) = 1 then 1 else length_g g)
           \<in> set (added w (snd (readInputsForGroup E g w)))"
    and "ERead c (minOffset g) (if length (sites g) = 1 then 1 else length_g g)
           \<in> set (added w (snd (readInputsForGroup_tagged E g w)))"
proof -
  from assms have "readInputsForGroup E g w = read_inputs E g c (tick w)"
    by (simp add: readInputsForGroup_def Let_def)
  with read_inputs_trace [of E g c "tick w"]
  show "ERead c (minOffset g) (if length (sites g) = 1 then 1 else length_g g)
           \<in> set (added w (snd (readInputsForGroup E g w)))"
    by (auto simp: added_def startAddr_def readLength_def)
  from assms have "readInputsForGroup_tagged E g w = read_inputs_tagged E g c (tick w)"
    by (simp add: readInputsForGroup_tagged_def Let_def)
  with read_inputs_tagged_trace [of E g c "tick w"]
  show "ERead c (minOffset g) (if length (sites g) = 1 then 1 else length_g g)
           \<in> set (added w (snd (readInputsForGroup_tagged E g w)))"
    by (auto simp: added_def startAddr_def readLength_def)
qed

lemma key_10_6_44_70: "site_key PICK_01 = ''10.6.44.70:502:255''"
  "site_key PICK_02 = ''10.6.44.70:502:255''" "site_key DROP_02 = ''10.6.44.70:502:255''"
  by (simp_all add: site_key_def PICK_01_def PICK_02_def DROP_02_def) code_simp+

lemma key_10_6_44_71: "site_key WIDE_0 = ''10.6.44.71:502:1''"
  "site_key WIDE_1 = ''10.6.44.71:502:1''"
  by (simp_all add: site_key_def WIDE_0_def WIDE_1_def) code_simp+

lemma group_of_PICK_01:
  "groupSitesByConnection [PICK_01] =
     [\<lparr>key = ''10.6.44.70:502:255'', g_ip = ''10.6.44.70'', g_port = 502, g_slaveId = 255,
       sites = [PICK_01], minOffset = 9, length_g = 1\<rparr>]"
  by (simp add: groupSitesByConnection_def group_step_def key_10_6_44_70 Let_def
                finish_group_def add_site_def length_exact)
     (simp add: PICK_01_def)

lemma group_of_three:
  "groupSitesByConnection [PICK_01, DROP_02, PICK_02] =
     [\<lparr>key = ''10.6.44.70:502:255'', g_ip = ''10.6.44.70'', g_port = 502, g_slaveId = 255,
       sites = [PICK_01, DROP_02, PICK_02], minOffset = 9, length_g = 4\<rparr>]"
  by (simp add: groupSitesByConnection_def group_step_def key_10_6_44_70 Let_def
                finish_group_def add_site_def)
     (simp add: PICK_01_def DROP_02_def PICK_02_def length_exact)

lemma group_of_wide:
  "groupSitesByConnection [WIDE_0, WIDE_1] =
     [\<lparr>key = ''10.6.44.71:502:1'', g_ip = ''10.6.44.71'', g_port = 502, g_slaveId = 1,
       sites = [WIDE_0, WIDE_1], minOffset = 0, length_g = 9007199254740992\<rparr>]"
  by (simp add: groupSitesByConnection_def group_step_def key_10_6_44_71 Let_def
                finish_group_def add_site_def)
     (simp add: WIDE_0_def WIDE_1_def length_wide)

text \<open>
  C9, as stated, fails. A configuration with the offsets \<open>0\<close> and \<open>2^53\<close> on one
  controller passes \<open>validateConfig\<close>; its group has two sites, so the quantity read is
  \<open>group.length\<close>, which the program computes in double precision: the greatest offset
  minus the least plus 1 is 9007199254740993, and the read that is issued asks for
  9007199254740992.
\<close>

theorem read_quantity_counterexample:
  "validateConfig [WIDE_0, WIDE_1] = None
   \<and> length (sites (hd (groupSitesByConnection [WIDE_0, WIDE_1]))) = 2
   \<and> Max (offset ` set (sites (hd (groupSitesByConnection [WIDE_0, WIDE_1]))))
       - Min (offset ` set (sites (hd (groupSitesByConnection [WIDE_0, WIDE_1])))) + 1
     = 9007199254740993
   \<and> added wide_open
        (snd (readInputsForGroup (example_env 5500 (ReadInputs [False]) [])
                (hd (groupSitesByConnection [WIDE_0, WIDE_1])) wide_open))
     = [ERead (Client ''10.6.44.71'' 502 1) 0 9007199254740992]
   \<and> added wide_open
        (snd (readInputsForGroup_tagged (example_env 5500 (ReadInputs [False]) [])
                (hd (groupSitesByConnection [WIDE_0, WIDE_1])) wide_open))
     = [ERead (Client ''10.6.44.71'' 502 1) 0 9007199254740992]"
  by (simp add: group_of_wide validateConfig_def wide_open_def
                readInputsForGroup_def read_inputs_def
                readInputsForGroup_tagged_def read_inputs_tagged_def
                added_def Let_def startAddr_def readLength_def example_env_def
                tick_def emit_def)
     (simp add: WIDE_0_def WIDE_1_def)

text \<open>
  C9, amended. Every group that \<open>groupSitesByConnection\<close> builds holds exactly the
  configured sites of its key and is not empty. Every read that \<open>readInputsForGroup\<close>
  issues for it, in either copy of the file, starts at the least member offset; its quantity
  is 1 when the group has exactly one site, whatever the offset of that site; and when the
  group has more than one site and the greatest member offset exceeds the least by less than
  \<open>2^53\<close>, its quantity is the greatest member offset minus the least plus 1. With an
  open client in the state of the group such a read is issued.
\<close>

theorem read_window_of_group:
  assumes "g \<in> set (groupSitesByConnection ss)"
  shows "sites g = filter (\<lambda>s. site_key s = key g) ss
       \<and> sites g \<noteq> []
       \<and> (\<forall>c a n.
             ERead c a n \<in> set (added w (snd (readInputsForGroup E g w)))
             \<or> ERead c a n \<in> set (added w (snd (readInputsForGroup_tagged E g w))) \<longrightarrow>
               a = Min (offset ` set (sites g))
             \<and> (length (sites g) = 1 \<longrightarrow> n = 1)
             \<and> (1 < length (sites g)
                  \<and> Max (offset ` set (sites g)) - Min (offset ` set (sites g)) < 2 ^ 53 \<longrightarrow>
                  n = Max (offset ` set (sites g)) - Min (offset ` set (sites g)) + 1))
       \<and> (\<forall>st c. modbusStates w (key g) = Some st \<and> client st = Some c \<longrightarrow>
             (\<exists>n. ERead c (Min (offset ` set (sites g))) n
                    \<in> set (added w (snd (readInputsForGroup E g w))))
           \<and> (\<exists>n. ERead c (Min (offset ` set (sites g))) n
                    \<in> set (added w (snd (readInputsForGroup_tagged E g w)))))"
proof -
  note gw = group_window [OF assms]
  have span: "0 \<le> Max (offset ` set (sites g)) - Min (offset ` set (sites g))"
    using gw(2) by simp
  have reads: "a = Min (offset ` set (sites g))
             \<and> (length (sites g) = 1 \<longrightarrow> n = 1)
             \<and> (1 < length (sites g)
                  \<and> Max (offset ` set (sites g)) - Min (offset ` set (sites g)) < 2 ^ 53 \<longrightarrow>
                  n = Max (offset ` set (sites g)) - Min (offset ` set (sites g)) + 1)"
    if "ERead c a n \<in> set (added w (snd (readInputsForGroup E g w)))
        \<or> ERead c a n \<in> set (added w (snd (readInputsForGroup_tagged E g w)))"
    for c a n
    using reads_of_readInputsForGroup [OF that] gw(3,4) length_exact [OF span]
    by auto
  have issued: "(\<exists>n. ERead c (Min (offset ` set (sites g))) n
                    \<in> set (added w (snd (readInputsForGroup E g w))))
           \<and> (\<exists>n. ERead c (Min (offset ` set (sites g))) n
                    \<in> set (added w (snd (readInputsForGroup_tagged E g w))))"
    if "modbusStates w (key g) = Some st \<and> client st = Some c" for st c
    using open_client_reads [of w g st c E] that gw(3)
    by auto
  from gw(1,2) reads issued show ?thesis
    by blast
qed

theorem read_window_of_group_witness:
  "ERead (Client ''10.6.44.70'' 502 255) 9 4
     \<in> set (added connected
          (snd (readInputsForGroup (example_env 5500 (ReadInputs [False]) [])
                  (hd (groupSitesByConnection [PICK_01, DROP_02, PICK_02])) connected)))
   \<and> sites (hd (groupSitesByConnection [PICK_01, DROP_02, PICK_02]))
       = [PICK_01, DROP_02, PICK_02]
   \<and> (9::int) = Min (offset ` set (sites (hd (groupSitesByConnection [PICK_01, DROP_02, PICK_02]))))
   \<and> (4::int) = Max (offset ` set (sites (hd (groupSitesByConnection [PICK_01, DROP_02, PICK_02]))))
               - Min (offset ` set (sites (hd (groupSitesByConnection [PICK_01, DROP_02, PICK_02])))) + 1
   \<and> ERead (Client ''10.6.44.70'' 502 255) 9 1
     \<in> set (added connected
          (snd (readInputsForGroup_tagged (example_env 5500 (ReadInputs [False]) [])
                  (hd (groupSitesByConnection [PICK_01])) connected)))
   \<and> length (sites (hd (groupSitesByConnection [PICK_01]))) = 1"
proof -
  let ?E = "example_env 5500 (ReadInputs [False]) []"
  let ?c = "Client ''10.6.44.70'' 502 255"
  let ?g3 = "hd (groupSitesByConnection [PICK_01, DROP_02, PICK_02])"
  let ?g1 = "hd (groupSitesByConnection [PICK_01])"
  have m3: "?g3 \<in> set (groupSitesByConnection [PICK_01, DROP_02, PICK_02])"
    by (simp add: group_of_three)
  have m1: "?g1 \<in> set (groupSitesByConnection [PICK_01])"
    by (simp add: group_of_PICK_01)
  have r3: "ERead ?c 9 4 \<in> set (added connected (snd (readInputsForGroup ?E ?g3 connected)))
            \<or> ERead ?c 9 4 \<in> set (added connected (snd (readInputsForGroup_tagged ?E ?g3 connected)))"
    by (simp add: group_of_three connected_def readInputsForGroup_def read_inputs_def
                  added_def Let_def startAddr_def readLength_def example_env_def
                  tick_def emit_def)
  have r3': "ERead ?c 9 4 \<in> set (added connected (snd (readInputsForGroup ?E ?g3 connected)))"
    by (simp add: group_of_three connected_def readInputsForGroup_def read_inputs_def
                  added_def Let_def startAddr_def readLength_def example_env_def
                  tick_def emit_def)
  have r1: "ERead ?c 9 1 \<in> set (added connected (snd (readInputsForGroup ?E ?g1 connected)))
            \<or> ERead ?c 9 1 \<in> set (added connected (snd (readInputsForGroup_tagged ?E ?g1 connected)))"
    by (simp add: group_of_PICK_01 connected_def readInputsForGroup_tagged_def
                  read_inputs_tagged_def added_def Let_def startAddr_def readLength_def
                  example_env_def tick_def emit_def)
  have r1': "ERead ?c 9 1 \<in> set (added connected (snd (readInputsForGroup_tagged ?E ?g1 connected)))"
    by (simp add: group_of_PICK_01 connected_def readInputsForGroup_tagged_def
                  read_inputs_tagged_def added_def Let_def startAddr_def readLength_def
                  example_env_def tick_def emit_def)
  have s3: "sites ?g3 = [PICK_01, DROP_02, PICK_02]" and s1: "length (sites ?g1) = 1"
    by (simp_all add: group_of_three group_of_PICK_01)
  have b3: "1 < length (sites ?g3)
            \<and> Max (offset ` set (sites ?g3)) - Min (offset ` set (sites ?g3)) < 2 ^ 53"
    unfolding s3 by (simp add: PICK_01_def DROP_02_def PICK_02_def)
  note T3 = read_window_of_group [OF m3, of connected ?E, THEN conjunct2, THEN conjunct2,
              THEN conjunct1, THEN spec, THEN spec, THEN spec, THEN mp, OF r3]
  note T1 = read_window_of_group [OF m1, of connected ?E, THEN conjunct2, THEN conjunct2,
              THEN conjunct1, THEN spec, THEN spec, THEN spec, THEN mp, OF r1]
  from T3 [THEN conjunct1] T3 [THEN conjunct2, THEN conjunct2, THEN mp, OF b3]
       T1 [THEN conjunct2, THEN conjunct1, THEN mp, OF s1] r3' r1' s3 s1
  show ?thesis
    by simp
qed

section \<open>Reconnect backoff\<close>

text \<open>
  C4. Let the state of a group hold no client and a last attempt less than
  \<open>RECONNECT_BACKOFF_MS\<close> before the time the call reads. Then \<open>readInputsForGroup\<close> of
  \<^verbatim>\<open>src/modbus-sync-worksites.js\<close> throws its backoff error, and the one of the second
  copy, where the time 0 stands for "no attempt recorded", returns the backoff status for
  every recorded attempt. In both, nothing is sent: the trace is the one before the call,
  so no \<open>connectTCP\<close> is issued, and the state of the group is untouched.
\<close>

theorem no_connect_during_backoff:
  assumes "modbusStates w (key g) = Some st"
    and "client st = None"
    and "Date_now E (steps w) - lastAttempt st < RECONNECT_BACKOFF_MS"
  shows "fst (readInputsForGroup E g w) = Inl BackoffError
       \<and> trace (snd (readInputsForGroup E g w)) = trace w
       \<and> modbusStates (snd (readInputsForGroup E g w)) = modbusStates w
       \<and> (lastAttempt st \<noteq> 0 \<longrightarrow>
            fst (readInputsForGroup_tagged E g w) = StatusBackoff
          \<and> trace (snd (readInputsForGroup_tagged E g w)) = trace w
          \<and> modbusStates (snd (readInputsForGroup_tagged E g w)) = modbusStates w)"
  using assms
  by (simp add: readInputsForGroup_def readInputsForGroup_tagged_def tick_def Let_def)

theorem no_connect_during_backoff_witness:
  "modbusStates disconnected (key GROUP_70) = Some \<lparr>client = None, lastAttempt = 5000\<rparr>
   \<and> Date_now (example_env 5500 ReadMalformed []) (steps disconnected) - 5000
       < RECONNECT_BACKOFF_MS
   \<and> fst (readInputsForGroup (example_env 5500 ReadMalformed []) GROUP_70 disconnected)
       = Inl BackoffError
   \<and> fst (readInputsForGroup_tagged (example_env 5500 ReadMalformed []) GROUP_70 disconnected)
       = StatusBackoff
   \<and> trace (snd (readInputsForGroup_tagged (example_env 5500 ReadMalformed []) GROUP_70
                   disconnected)) = []"
proof -
  have h1: "modbusStates disconnected (key GROUP_70) = Some \<lparr>client = None, lastAttempt = 5000\<rparr>"
    by (simp add: disconnected_def GROUP_70_def)
  have h2: "client \<lparr>client = None, lastAttempt = 5000\<rparr> = None"
    by simp
  have h3: "Date_now (example_env 5500 ReadMalformed []) (steps disconnected)
            - lastAttempt \<lparr>client = None, lastAttempt = 5000\<rparr> < RECONNECT_BACKOFF_MS"
    by (simp add: example_env_def RECONNECT_BACKOFF_MS_def)
  have t: "trace disconnected = []"
    by (simp add: disconnected_def)
  show ?thesis
    using h1 h3 t no_connect_during_backoff [OF h1 h2 h3]
    by simp
qed

section \<open>Session expiry and the single retry\<close>

lemma do_fetch_response:
  "fetch E (steps w) = FetchResponse r \<Longrightarrow>
   do_fetch E u opts w = (Inr r, tick (emit (EFetch u opts) w))"
  by (simp add: do_fetch_def)


lemma login_world:
  "steps (snd (snd (login E api w))) = steps w + 1"
  "trace (snd (snd (login E api w))) =
     trace w @ [EFetch (apiHost api @ ''/admin/login'') (login_options E api)]
       @ (if fst (login E api w) = Inr ()
          then [ELog (LoggedInMsg (template (sessionId (fst (snd (login E api w))))))]
          else [])"
  "apiHost (fst (snd (login E api w))) = apiHost api"
  by (auto simp: login_def do_fetch_def Let_def split: fetch_result.splits option.splits)

lemma login_result:
  assumes "fetch E (steps w) = FetchResponse r"
  shows "(fst (login E api w) = Inr ()) = login_succeeds E r"
    and "fst (login E api w) = Inr () \<Longrightarrow> truthy (sessionId (fst (snd (login E api w))))"
  using assms
  by (auto simp: login_def do_fetch_def login_succeeds_def Let_def split: option.splits)


lemma apiCall_result_world:
  "steps (snd (apiCall_result E r w)) = steps w"
  "trace (snd (apiCall_result E r w)) =
     trace w @ (if status r = 400 then [EError (Status400Msg (text_of r))] else [])"
  "\<not> ok r \<Longrightarrow> fst (apiCall_result E r w) = Inl (ApiError (status r))"
  by (auto simp: apiCall_result_def ok_def split: option.splits)

lemma update_again:
  "k \<noteq> k' \<Longrightarrow>
   AList.update k v' (AList.update k' x (AList.update k v al))
   = AList.update k' x (AList.update k v' al)"
  by (induction al) auto

lemma sent_again:
  "(sent opts sid)\<lparr>headers := AList.update ''Cookie'' (''JSESSIONID='' @ template sid')
                                  (headers (sent opts sid))\<rparr> = sent opts sid'"
  by (simp add: sent_def update_again)

lemma apiCall_plain:
  assumes "truthy (sessionId api)" and "fetch E (steps w) = FetchResponse r1"
    and "status r1 \<noteq> 401" and "status r1 \<noteq> 403"
  shows "apiCall E path opts api w =
         (fst (apiCall_result E r1 (tick (emit (EFetch (apiHost api @ path) (sent opts (sessionId api))) w))),
          api,
          snd (apiCall_result E r1 (tick (emit (EFetch (apiHost api @ path) (sent opts (sessionId api))) w))))"
  using assms
  by (simp add: apiCall_def ensure_session_def do_fetch_response sent_def Let_def
           split: prod.splits)

lemma apiCall_expired:
  fixes path :: string and opts :: options
  assumes "truthy (sessionId api)" and "fetch E (steps w) = FetchResponse r1"
    and "status r1 = 401 \<or> status r1 = 403"
  defines "w2 \<equiv> emit (ELog SessionExpiredMsg)
                   (tick (emit (EFetch (apiHost api @ path) (sent opts (sessionId api))) w))"
  shows "apiCall E path opts api w =
         (case login E api w2 of
            (Inl err, api2, w3) \<Rightarrow> (Inl err, api2, w3)
          | (Inr u, api2, w3) \<Rightarrow>
              (case do_fetch E (apiHost api @ path) (sent opts (sessionId api2)) w3 of
                 (Inl err, w4) \<Rightarrow> (Inl err, api2, w4)
               | (Inr r2, w4) \<Rightarrow>
                   (fst (apiCall_result E r2 w4), api2, snd (apiCall_result E r2 w4))))"
proof -
  have "apiCall E path opts api w =
         (case login E api w2 of
            (Inl err, api2, w3) \<Rightarrow> (Inl err, api2, w3)
          | (Inr u, api2, w3) \<Rightarrow>
              (case do_fetch E (apiHost api @ path)
                      ((sent opts (sessionId api))\<lparr>headers :=
                          AList.update ''Cookie'' (''JSESSIONID='' @ template (sessionId api2))
                            (headers (sent opts (sessionId api)))\<rparr>) w3 of
                 (Inl err, w4) \<Rightarrow> (Inl err, api2, w4)
               | (Inr r2, w4) \<Rightarrow>
                   (fst (apiCall_result E r2 w4), api2, snd (apiCall_result E r2 w4))))"
    using assms(1-3) unfolding w2_def
    by (auto simp add: apiCall_def ensure_session_def relogin_and_resend_def
                       do_fetch_response Let_def sent_def
             split: prod.splits sum.splits)
  then show ?thesis
    by (simp only: sent_again)
qed


lemma apiCall_plain_added:
  assumes "truthy (sessionId api)" and "fetch E (steps w) = FetchResponse r1"
    and "status r1 \<noteq> 401" and "status r1 \<noteq> 403"
  shows "added w (snd (snd (apiCall E path opts api w))) =
           EFetch (apiHost api @ path) (sent opts (sessionId api))
           # (if status r1 = 400 then [EError (Status400Msg (text_of r1))] else [])"
    and "fst (snd (apiCall E path opts api w)) = api"
    and "fst (apiCall E path opts api w) = fst (apiCall_result E r1 w)"
  using assms
  by (simp_all add: apiCall_plain apiCall_result_world)
     (simp add: apiCall_result_def split: option.splits)

lemma apiCall_expired_added:
  fixes path :: string and opts :: options
  assumes "truthy (sessionId api)" and "fetch E (steps w) = FetchResponse r1"
    and "status r1 = 401 \<or> status r1 = 403"
  defines "first \<equiv> [EFetch (apiHost api @ path) (sent opts (sessionId api)),
                      ELog SessionExpiredMsg,
                      EFetch (apiHost api @ ''/admin/login'') (login_options E api)]"
  shows "fetch E (steps w + 1) = FetchRejected msg \<Longrightarrow>
           added w (snd (snd (apiCall E path opts api w))) = first
         \<and> isl (fst (apiCall E path opts api w))"
    and "fetch E (steps w + 1) = FetchResponse rl \<Longrightarrow> \<not> login_succeeds E rl \<Longrightarrow>
           added w (snd (snd (apiCall E path opts api w))) = first
         \<and> isl (fst (apiCall E path opts api w))"
    and "fetch E (steps w + 1) = FetchResponse rl \<Longrightarrow> login_succeeds E rl \<Longrightarrow>
           (\<exists>sid rest. added w (snd (snd (apiCall E path opts api w))) =
              first @ [ELog (LoggedInMsg sid), EFetch (apiHost api @ path) (sent opts (Some sid))]
                @ rest \<and> (\<forall>u. fetches_to u rest = 0) \<and> sid \<noteq> []
              \<and> sessionId (fst (snd (apiCall E path opts api w))) = Some sid)
         \<and> (\<forall>r2. fetch E (steps w + 2) = FetchResponse r2 \<longrightarrow> \<not> ok r2 \<longrightarrow>
                fst (apiCall E path opts api w) = Inl (ApiError (status r2)))"
proof -
  let ?w2 = "emit (ELog SessionExpiredMsg)
               (tick (emit (EFetch (apiHost api @ path) (sent opts (sessionId api))) w))"
  have st: "steps ?w2 = steps w + 1" by simp
  have tr: "trace ?w2 = trace w @ [EFetch (apiHost api @ path) (sent opts (sessionId api)),
                                   ELog SessionExpiredMsg]" by simp
  note ex = apiCall_expired [OF assms(1-3), of path opts]
  note lw = login_world [of E api ?w2]
  {
    assume f: "fetch E (steps w + 1) = FetchRejected msg"
    then have "login E api ?w2 = (Inl (FetchFailed msg), api,
                 tick (emit (EFetch (apiHost api @ ''/admin/login'') (login_options E api)) ?w2))"
      by (simp add: login_def do_fetch_def)
    then show "added w (snd (snd (apiCall E path opts api w))) = first
         \<and> isl (fst (apiCall E path opts api w))"
      by (simp add: ex first_def)
  }
  {
    assume f: "fetch E (steps w + 1) = FetchResponse rl" and n: "\<not> login_succeeds E rl"
    from f have f': "fetch E (steps ?w2) = FetchResponse rl" by simp
    from login_result(1) [OF f', of api] n have "fst (login E api ?w2) \<noteq> Inr ()" by simp
    then obtain err api2 w3 where l: "login E api ?w2 = (Inl err, api2, w3)"
      by (cases "login E api ?w2") (auto simp: isl_def elim: sum.exhaust)
    with lw(2) have "trace w3 = trace ?w2 @ [EFetch (apiHost api @ ''/admin/login'') (login_options E api)]"
      by simp
    with l show "added w (snd (snd (apiCall E path opts api w))) = first
         \<and> isl (fst (apiCall E path opts api w))"
      by (simp add: ex first_def)
  }
  {
    assume f: "fetch E (steps w + 1) = FetchResponse rl" and y: "login_succeeds E rl"
    from f have f': "fetch E (steps ?w2) = FetchResponse rl" by simp
    from login_result(1) [OF f', of api] y have ok: "fst (login E api ?w2) = Inr ()" by simp
    then obtain api2 w3 where l: "login E api ?w2 = (Inr (), api2, w3)"
      by (cases "login E api ?w2") auto
    from login_result(2) [OF f' ok] l have "truthy (sessionId api2)" by simp
    then obtain sid where sid: "sessionId api2 = Some sid" "sid \<noteq> []"
      by (auto simp: truthy_def split: option.splits)
    from lw(1,2) l sid have w3: "steps w3 = steps w + 2"
      "trace w3 = trace w @ first @ [ELog (LoggedInMsg sid)]"
      by (simp_all add: first_def template_def)
    show "(\<exists>sid rest. added w (snd (snd (apiCall E path opts api w))) =
              first @ [ELog (LoggedInMsg sid), EFetch (apiHost api @ path) (sent opts (Some sid))]
                @ rest \<and> (\<forall>u. fetches_to u rest = 0) \<and> sid \<noteq> []
              \<and> sessionId (fst (snd (apiCall E path opts api w))) = Some sid)
         \<and> (\<forall>r2. fetch E (steps w + 2) = FetchResponse r2 \<longrightarrow> \<not> ok r2 \<longrightarrow>
                fst (apiCall E path opts api w) = Inl (ApiError (status r2)))"
    proof (cases "fetch E (steps w + 2)")
      case (FetchRejected m)
      with l sid w3 show ?thesis
        by (simp add: ex do_fetch_def)
    next
      case (FetchResponse r2)
      with l sid w3 show ?thesis
        by (simp add: ex do_fetch_def apiCall_result_world)
    qed
  }
qed


text \<open>
  C5. A call made with a session, whose request is answered with status \<open>r1\<close>. If the
  status is neither 401 nor 403 (400 for one), no login request is sent and the request
  goes out exactly once. If it is 401 or 403, exactly one login request is sent; when that
  login goes through, the request is sent exactly twice, once before and once after it,
  and a failing status of the second answer (401 and 403 included) is thrown as the error
  of the call, with no further login or request; when the login does not go through, the
  request is not sent again and the call fails. The path called is not the login path
  itself, so that the two kinds of request can be told apart.
\<close>

theorem relogin_once:
  fixes path :: string and opts :: options
  assumes auth: "truthy (sessionId api)"
    and r1: "fetch E (steps w) = FetchResponse r1"
    and path: "path \<noteq> ''/admin/login''"
  defines "url \<equiv> apiHost api @ path"
    and "login_url \<equiv> apiHost api @ ''/admin/login''"
    and "res \<equiv> apiCall E path opts api w"
  defines "new \<equiv> added w (snd (snd res))"
  shows "(status r1 \<noteq> 401 \<and> status r1 \<noteq> 403 \<longrightarrow>
            fetches_to login_url new = 0 \<and> fetches_to url new = 1)
       \<and> (status r1 = 401 \<or> status r1 = 403 \<longrightarrow>
            fetches_to login_url new = 1
          \<and> (\<forall>rl. fetch E (steps w + 1) = FetchResponse rl \<and> login_succeeds E rl \<longrightarrow>
                fetches_to url new = 2
              \<and> (\<forall>r2. fetch E (steps w + 2) = FetchResponse r2 \<and> \<not> ok r2 \<longrightarrow>
                    fst res = Inl (ApiError (status r2))))
          \<and> ((\<forall>rl. fetch E (steps w + 1) = FetchResponse rl \<longrightarrow> \<not> login_succeeds E rl) \<longrightarrow>
                fetches_to url new = 1 \<and> isl (fst res)))"
proof (intro conjI impI allI)
  assume "status r1 \<noteq> 401 \<and> status r1 \<noteq> 403"
  then have n: "status r1 \<noteq> 401" "status r1 \<noteq> 403" by simp_all
  from path have "login_url \<noteq> url" by (simp add: login_url_def url_def)
  then show "fetches_to login_url new = 0" "fetches_to url new = 1"
    unfolding new_def res_def
    by (simp_all add: apiCall_plain_added(1) [OF auth r1 n] url_def)
next
  assume e: "status r1 = 401 \<or> status r1 = 403"
  from path have ne: "login_url \<noteq> url" by (simp add: login_url_def url_def)
  note ea = apiCall_expired_added [OF auth r1 e, of _ path opts]
  show "fetches_to login_url new = 1"
  proof (cases "fetch E (steps w + 1)")
    case (FetchRejected msg)
    from ea(1) [OF this] ne show ?thesis
      unfolding new_def res_def by (simp add: login_url_def url_def)
  next
    case (FetchResponse rl)
    show ?thesis
    proof (cases "login_succeeds E rl")
      case True
      from ea(3) [OF FetchResponse True] ne show ?thesis
        unfolding new_def res_def by (auto simp: login_url_def url_def)
    next
      case False
      from ea(2) [OF FetchResponse False] ne show ?thesis
        unfolding new_def res_def by (simp add: login_url_def url_def)
    qed
  qed
  {
    fix rl assume "fetch E (steps w + 1) = FetchResponse rl \<and> login_succeeds E rl"
    then have rl: "fetch E (steps w + 1) = FetchResponse rl" "login_succeeds E rl" by simp_all
    from ea(3) [OF rl] ne show "fetches_to url new = 2"
      unfolding new_def res_def by (auto simp: login_url_def url_def)
    fix r2 assume "fetch E (steps w + 2) = FetchResponse r2 \<and> \<not> ok r2"
    with ea(3) [OF rl] show "fst res = Inl (ApiError (status r2))"
      unfolding res_def by simp
  }
  {
    assume nl: "\<forall>rl. fetch E (steps w + 1) = FetchResponse rl \<longrightarrow> \<not> login_succeeds E rl"
    have "added w (snd (snd (apiCall E path opts api w))) =
            [EFetch (apiHost api @ path) (sent opts (sessionId api)),
             ELog SessionExpiredMsg,
             EFetch (apiHost api @ ''/admin/login'') (login_options E api)]
          \<and> isl (fst (apiCall E path opts api w))"
    proof (cases "fetch E (steps w + 1)")
      case (FetchRejected msg)
      from ea(1) [OF this] show ?thesis .
    next
      case (FetchResponse rl)
      with nl have "\<not> login_succeeds E rl" by simp
      from ea(2) [OF FetchResponse this] show ?thesis .
    qed
    with ne show "fetches_to url new = 1" "isl (fst res)"
      unfolding new_def res_def by (simp_all add: login_url_def url_def)
  }
qed

theorem relogin_once_witness:
  "fetches_to ''http://10.6.44.2:8080/admin/login''
     (added idle (snd (snd (apiCall
        (example_env 0 ReadMalformed [expired_response, login_response ''{}'', expired_response])
        ''/api/work-sites/worksiteUnFiled'' unfiled RDS idle)))) = 1
   \<and> fetches_to ''http://10.6.44.2:8080/api/work-sites/worksiteUnFiled''
     (added idle (snd (snd (apiCall
        (example_env 0 ReadMalformed [expired_response, login_response ''{}'', expired_response])
        ''/api/work-sites/worksiteUnFiled'' unfiled RDS idle)))) = 2
   \<and> fst (apiCall
        (example_env 0 ReadMalformed [expired_response, login_response ''{}'', expired_response])
        ''/api/work-sites/worksiteUnFiled'' unfiled RDS idle) = Inl (ApiError 401)
   \<and> fetches_to ''http://10.6.44.2:8080/admin/login''
     (added idle (snd (snd (apiCall (example_env 0 ReadMalformed [bad_request])
        ''/api/work-sites/worksiteUnFiled'' unfiled RDS idle)))) = 0
   \<and> fetches_to ''http://10.6.44.2:8080/api/work-sites/worksiteUnFiled''
     (added idle (snd (snd (apiCall (example_env 0 ReadMalformed [bad_request])
        ''/api/work-sites/worksiteUnFiled'' unfiled RDS idle)))) = 1"
proof -
  let ?E = "example_env 0 ReadMalformed [expired_response, login_response ''{}'', expired_response]"
  let ?B = "example_env 0 ReadMalformed [bad_request]"
  let ?r = "\<lparr>status = 401, set_cookie = None, text_of = []\<rparr>"
  let ?l = "\<lparr>status = 200, set_cookie = Some ''JSESSIONID=C3D4; Path=/; HttpOnly'', text_of = ''{}''\<rparr>"
  let ?b = "\<lparr>status = 400, set_cookie = None, text_of = ''bad''\<rparr>"
  have a: "truthy (sessionId RDS)"
    by (simp add: RDS_def truthy_def)
  have p: "''/api/work-sites/worksiteUnFiled'' \<noteq> ''/admin/login''"
    by simp
  have e1: "fetch ?E (steps idle) = FetchResponse ?r"
    by (simp add: expired_response_def)
  have e2: "fetch ?E (steps idle + 1) = FetchResponse ?l \<and> login_succeeds ?E ?l"
    by (simp add: login_response_def login_response_succeeds)
  have e3: "fetch ?E (steps idle + 2) = FetchResponse ?r \<and> \<not> ok ?r"
    by (simp add: expired_response_def ok_def)
  have b1: "fetch ?B (steps idle) = FetchResponse ?b"
    by (simp add: bad_request_def)
  have h: "apiHost RDS = ''http://10.6.44.2:8080''"
    by (simp add: RDS_def)
  have s: "status ?r = 401 \<or> status ?r = 403"
    by simp
  have n: "status ?b \<noteq> 401 \<and> status ?b \<noteq> 403"
    by simp
  note T = relogin_once [OF a e1 p, of unfiled, THEN conjunct2, THEN mp, OF s]
  note T1 = T [THEN conjunct1]
  note T2 = T [THEN conjunct2, THEN conjunct1, THEN spec, THEN mp, OF e2]
  note T3 = T2 [THEN conjunct2, THEN spec, THEN mp, OF e3]
  note B = relogin_once [OF a b1 p, of unfiled, THEN conjunct1, THEN mp, OF n]
  from T1 T2 [THEN conjunct1] T3 B show ?thesis
    by (simp add: h)
qed

section \<open>The headers of an authenticated request\<close>







lemma apiCall_result_extends:
  "\<exists>es. trace (snd (apiCall_result E r w)) = trace w @ es"
  by (simp add: apiCall_result_world)










section \<open>The body of a successful answer\<close>

lemma apiCall_result_empty_body:
  "ok r \<Longrightarrow> text_of r = [] \<Longrightarrow> apiCall_result E r w = (Inl SyntaxError, w)"
  by (simp add: apiCall_result_def json_of_def)

lemma apiCall_empty_body:
  assumes "truthy (sessionId api)" and "fetch E (steps w) = FetchResponse r"
    and "ok r" and "text_of r = []"
  shows "fst (apiCall E path opts api w) = Inl SyntaxError"
proof -
  from assms(3) have "status r \<noteq> 401" "status r \<noteq> 403"
    by (simp_all add: ok_def)
  from apiCall_plain_added(3) [OF assms(1,2) this] assms(3,4) show ?thesis
    by (simp add: apiCall_result_empty_body)
qed

lemma apiCall_first_result_body:
  assumes "ok r"
  shows "text_of r = [] \<Longrightarrow> apiCall_first_result E r = Inr JNull"
    and "text_of r \<noteq> [] \<Longrightarrow> JSON_parse E (text_of r) = None \<Longrightarrow>
         apiCall_first_result E r = Inr (JStr (text_of r))"
    and "text_of r \<noteq> [] \<Longrightarrow> JSON_parse E (text_of r) = Some v \<Longrightarrow>
         apiCall_first_result E r = Inr v"
  using assms by (simp_all add: apiCall_first_result_def json_of_def)

text \<open>
  C6 on the code. The \<open>apiCall\<close> that runs ends in \<open>return response.json()\<close>: an answer
  with status 200 and an empty body makes the call fail with the decoding error, and so
  does a body that is no JSON text. The first definition of \<open>apiCall\<close> in the same class
  body, which the second replaces, returns \<open>null\<close> and the raw text on the same answers.
\<close>

theorem empty_body_is_a_decoding_error:
  "fst (apiCall (example_env 0 ReadMalformed [empty_response])
          ''/api/work-sites/worksiteUnFiled'' unfiled RDS idle) = Inl SyntaxError
   \<and> fst (apiCall_first (example_env 0 ReadMalformed [empty_response])
          ''/api/work-sites/worksiteUnFiled'' unfiled RDS idle) = Inr JNull
   \<and> fst (apiCall (example_env 0 ReadMalformed [text_response])
          ''/api/work-sites/worksiteUnFiled'' unfiled RDS idle) = Inl SyntaxError
   \<and> fst (apiCall_first (example_env 0 ReadMalformed [text_response])
          ''/api/work-sites/worksiteUnFiled'' unfiled RDS idle) = Inr (JStr ''OK'')"
proof -
  have a: "truthy (sessionId RDS)"
    by (simp add: RDS_def truthy_def)
  have e: "fetch (example_env 0 ReadMalformed [empty_response]) (steps idle)
           = FetchResponse \<lparr>status = 200, set_cookie = None, text_of = []\<rparr>"
    by (simp add: empty_response_def)
  have t: "fetch (example_env 0 ReadMalformed [text_response]) (steps idle)
           = FetchResponse \<lparr>status = 200, set_cookie = None, text_of = ''OK''\<rparr>"
    by (simp add: text_response_def)
  have 1: "fst (apiCall (example_env 0 ReadMalformed [empty_response])
          ''/api/work-sites/worksiteUnFiled'' unfiled RDS idle) = Inl SyntaxError"
    using apiCall_empty_body [OF a e] by (simp add: ok_def)
  have 2: "fst (apiCall_first (example_env 0 ReadMalformed [empty_response])
          ''/api/work-sites/worksiteUnFiled'' unfiled RDS idle) = Inr JNull"
    using a e
    by (simp add: apiCall_first_def do_fetch_response Let_def apiCall_first_result_def ok_def)
  have 3: "fst (apiCall (example_env 0 ReadMalformed [text_response])
          ''/api/work-sites/worksiteUnFiled'' unfiled RDS idle) = Inl SyntaxError"
    using apiCall_plain_added(3) [OF a t]
    by (simp add: apiCall_result_def ok_def json_of_def)
  have 4: "fst (apiCall_first (example_env 0 ReadMalformed [text_response])
          ''/api/work-sites/worksiteUnFiled'' unfiled RDS idle) = Inr (JStr ''OK'')"
    using a t
    by (simp add: apiCall_first_def do_fetch_response Let_def apiCall_first_result_def ok_def
                  json_of_def)
  from 1 2 3 4 show ?thesis by simp
qed

section \<open>Login\<close>

lemma login_posts_digest:
  "take 1 (added w (snd (snd (login E api w)))) =
     [EFetch (apiHost api @ ''/admin/login'')
        \<lparr>http_method = ''POST'',
         headers = [(''Content-Type'', ''application/json'')],
         body = Some (JObj [(''username'', JStr (username api)),
                            (''password'', JStr (md5 E (password api)))])\<rparr>]"
  by (simp add: added_def login_world login_options_def encryptPassword_def)

lemma login_stores_token:
  assumes "fetch E (steps w) = FetchResponse r" and "ok r"
  shows "sessionId (fst (snd (login E api w)))
         = (case set_cookie r of None \<Rightarrow> None | Some h \<Rightarrow> match_JSESSIONID h)"
  using assms
  by (simp add: login_def do_fetch_response Let_def split: option.splits)

lemma login_without_token:
  assumes "fetch E (steps w) = FetchResponse r" and "ok r"
    and "(case set_cookie r of None \<Rightarrow> None | Some h \<Rightarrow> match_JSESSIONID h) = None"
  shows "fst (login E api w) = Inl NoSessionCookie"
  using assms
  by (simp add: login_def do_fetch_response Let_def truthy_def split: option.splits)

lemma login_rejects_failing_status:
  assumes "fetch E (steps w) = FetchResponse r" and "\<not> ok r"
  shows "login E api w
         = (Inl (LoginFailed (status r)), api,
            tick (emit (EFetch (apiHost api @ ''/admin/login'') (login_options E api)) w))"
  using assms
  by (simp add: login_def do_fetch_response)

lemma login_fails_on_empty_body:
  assumes "fetch E (steps w) = FetchResponse r" and "ok r"
    and "set_cookie r = Some h" and "match_JSESSIONID h = Some tok" and "tok \<noteq> []"
    and "text_of r = []"
  shows "fst (login E api w) = Inl SyntaxError"
    and "sessionId (fst (snd (login E api w))) = Some tok"
  using assms
  by (simp_all add: login_def do_fetch_response Let_def truthy_def json_of_def)

lemma match_JSESSIONID_examples:
  "match_JSESSIONID ''JSESSIONID=C3D4; Path=/; HttpOnly'' = Some ''C3D4''"
  "match_JSESSIONID ''lang=en, JSESSIONID=C3D4'' = Some ''C3D4''"
  "match_JSESSIONID ''JSESSIONID=;JSESSIONID=C3D4'' = Some ''C3D4''"
  "match_JSESSIONID ''jsessionid=C3D4'' = None"
  by simp_all

text \<open>
  C8 on the code. \<open>login\<close> posts the user name with the digest of the password, takes the
  token from the cookie and stores it, and fails on a 2xx answer without a token. But it
  then awaits \<open>response.json()\<close>: of two answers with status 200 and the same cookie, the
  one with the body \<open>{}\<close> lets the login succeed and the one with an empty body makes it
  fail with the decoding error, after the token has been stored.
\<close>

theorem login_depends_on_the_body:
  "fst (login (example_env 0 ReadMalformed [login_response []]) RDS_out idle) = Inl SyntaxError
   \<and> sessionId (fst (snd (login (example_env 0 ReadMalformed [login_response []]) RDS_out idle)))
       = Some ''C3D4''
   \<and> fst (login (example_env 0 ReadMalformed [login_response ''{}'']) RDS_out idle) = Inr ()
   \<and> sessionId (fst (snd (login (example_env 0 ReadMalformed [login_response ''{}'']) RDS_out idle)))
       = Some ''C3D4''"
  by (simp add: login_def do_fetch_def Let_def login_response_def ok_def truthy_def json_of_def)

section \<open>What publishing leaves alone\<close>

text \<open>Talking to the dispatcher changes neither the Modbus states nor the debounce
  states.\<close>

lemma do_fetch_keeps:
  "modbusStates (snd (do_fetch E u opts w)) = modbusStates w"
  "siteDebounceStates (snd (do_fetch E u opts w)) = siteDebounceStates w"
  by (simp_all add: do_fetch_def Let_def split: fetch_result.splits)

lemma login_keeps:
  "modbusStates (snd (snd (login E api w))) = modbusStates w"
  "siteDebounceStates (snd (snd (login E api w))) = siteDebounceStates w"
  by (auto simp: login_def do_fetch_def Let_def split: fetch_result.splits option.splits)

lemma apiCall_result_keeps:
  "modbusStates (snd (apiCall_result E r w)) = modbusStates w"
  "siteDebounceStates (snd (apiCall_result E r w)) = siteDebounceStates w"
  by (auto simp: apiCall_result_def split: option.splits)



lemma relogin_and_resend_keeps:
  "modbusStates (snd (snd (relogin_and_resend E url opts api w))) = modbusStates w"
  "siteDebounceStates (snd (snd (relogin_and_resend E url opts api w))) = siteDebounceStates w"
  by (simp_all add: relogin_and_resend_def Let_def split_beta sum.case_eq_if
                    login_keeps do_fetch_keeps)

lemma ensure_session_keeps:
  "modbusStates (snd (snd (ensure_session E api w))) = modbusStates w"
  "siteDebounceStates (snd (snd (ensure_session E api w))) = siteDebounceStates w"
  by (simp_all add: ensure_session_def login_keeps)

lemma apiCall_keeps:
  "modbusStates (snd (snd (apiCall E path opts api w))) = modbusStates w"
  "siteDebounceStates (snd (snd (apiCall E path opts api w))) = siteDebounceStates w"
  by (simp_all add: apiCall_def Let_def split_beta sum.case_eq_if
                    ensure_session_keeps relogin_and_resend_keeps do_fetch_keeps
                    apiCall_result_keeps)

lemma writeWorksiteState_keeps:
  "modbusStates (snd (writeWorksiteState E s b api w)) = modbusStates w"
  "siteDebounceStates (snd (writeWorksiteState E s b api w)) = siteDebounceStates w"
  by (simp_all add: writeWorksiteState_def setWorkSiteFilled_def setWorkSiteEmpty_def
                    split_beta sum.case_eq_if apiCall_keeps)

lemma setSitesDefault_keeps:
  "modbusStates (snd (setSitesDefault E ss api w)) = modbusStates w
   \<and> siteDebounceStates (snd (setSitesDefault E ss api w)) = siteDebounceStates w"
  by (induction ss arbitrary: api w) (simp_all add: split_beta writeWorksiteState_keeps)


lemma reset_sites_deletes:
  "s \<in> set ss \<Longrightarrow> siteDebounceStates (reset_sites ss w) (siteId s) = None"
  by (simp add: reset_sites_def resetDebounceForSites_apply)

section \<open>The concrete configuration, evaluated\<close>

lemma example_env_simps [simp]:
  "Date_now (example_env now rd rs) n = now"
  "connectTCP (example_env now rd rs) n = None"
  "readDiscreteInputs (example_env now rd rs) n = rd"
  by (simp_all add: example_env_def)

lemma GROUP_70_simps [simp]:
  "key GROUP_70 = ''10.6.44.70:502:255''" "sites GROUP_70 = [PICK_01]"
  "minOffset GROUP_70 = 9" "startAddr GROUP_70 = 9" "readLength GROUP_70 = 1"
  "g_ip GROUP_70 = ''10.6.44.70''" "g_port GROUP_70 = 502" "g_slaveId GROUP_70 = 255"
  by (simp_all add: GROUP_70_def startAddr_def readLength_def)

lemma PICK_01_simps [simp]:
  "siteId PICK_01 = ''PICK-01''" "defaultState PICK_01 = EMPTY" "offset PICK_01 = 9"
  by (simp_all add: PICK_01_def)

lemma truthy_simps [simp]:
  "truthy None = False" "truthy (Some s) = (s \<noteq> [])"
  by (simp_all add: truthy_def)

lemma RDS_simps [simp]:
  "apiHost RDS = ''http://10.6.44.2:8080''" "sessionId RDS = Some ''A1B2''"
  by (simp_all add: RDS_def)

lemma write_empty_ok:
  assumes "fetch E (steps w) = FetchResponse \<lparr>status = 200, set_cookie = None, text_of = ''{}''\<rparr>"
    and "JSON_parse E ''{}'' = Some v"
  shows "writeWorksiteState E PICK_01 False RDS w =
           (RDS, tick (emit (EFetch ''http://10.6.44.2:8080/api/work-sites/worksiteUnFiled''
                  \<lparr>http_method = ''POST'',
                   headers = [(''Content-Type'', ''application/json''),
                              (''Cookie'', ''JSESSIONID=A1B2''),
                              (''Language'', ''en'')],
                   body = Some (JObj [(''workSiteIds'', JArr [JStr ''PICK-01''])])\<rparr>) w))"
proof -
  have "apiCall E ''/api/work-sites/worksiteUnFiled'' unfiled RDS w =
          (Inr v, RDS, tick (emit (EFetch ''http://10.6.44.2:8080/api/work-sites/worksiteUnFiled''
             (sent unfiled (Some ''A1B2''))) w))"
    using assms
    by (simp add: apiCall_plain apiCall_result_def ok_def json_of_def)
  then show ?thesis
    by (simp add: writeWorksiteState_def setWorkSiteEmpty_def unfiled_def sent_def template_def)
qed

section \<open>Backoff in the sync cycle\<close>

text \<open>
  In the copy that returns a status object, a group whose read returns the backoff status
  is skipped: the client of the dispatcher is untouched and the world differs only in the
  count of interactions, by the one reading of the clock.
\<close>

lemma backoff_status_changes_nothing:
  assumes "fst (readInputsForGroup_tagged E g w) = StatusBackoff"
  shows "sync_group_tagged E g api w = (api, tick w)"
proof -
  have r: "\<And>c w'. fst (read_inputs_tagged E g c w') \<noteq> StatusBackoff"
    by (simp add: read_inputs_tagged_def Let_def split: read_result.splits)
  from assms have "readInputsForGroup_tagged E g w = (StatusBackoff, tick w)"
    using r
    by (auto simp: readInputsForGroup_tagged_def Let_def
             split: option.splits if_splits prod.splits)
  then show ?thesis
    by (simp add: sync_group_tagged_def)
qed

lemma backoff_error_resets_and_overwrites:
  assumes "modbusStates w (key g) = Some st" and "client st = None"
    and "Date_now E (steps w) - lastAttempt st < RECONNECT_BACKOFF_MS"
  shows "sync_group E g api w
         = setSitesDefault E (sites g) api (reset_sites (sites g) (tick w))"
  using assms
  by (simp add: sync_group_def readInputsForGroup_def Let_def)


lemma backoff_error_deletes_state:
  assumes "modbusStates w (key g) = Some st" and "client st = None"
    and "Date_now E (steps w) - lastAttempt st < RECONNECT_BACKOFF_MS"
    and "s \<in> set (sites g)"
  shows "siteDebounceStates (snd (sync_group E g api w)) (siteId s) = None"
  by (simp add: backoff_error_resets_and_overwrites [OF assms(1-3)] setSitesDefault_keeps
                reset_sites_deletes [OF assms(4)])

text \<open>
  C2 on the code. In \<^verbatim>\<open>src/modbus-sync-worksites.js\<close> the backoff is a thrown error,
  and the \<open>catch\<close> of \<open>syncOnce\<close> treats every error alike. With the client of the
  shipped group absent, the last attempt at 5000 and the clock at 5500, one cycle deletes the
  debounce state of \<open>PICK-01\<close> (which had switched to FILLED) and sends the request that
  sets the site to its default EMPTY. The second copy of the file, on the same input, returns
  the backoff status and changes nothing but the count of interactions.
\<close>

theorem backoff_resets_and_overwrites:
  "siteDebounceStates disconnected ''PICK-01''
     = Some \<lparr>lastOppositeStartTs = Some 1000, effectiveVal = True\<rparr>
   \<and> fst (readInputsForGroup (example_env 5500 ReadMalformed [ok_response, ok_response])
            GROUP_70 disconnected) = Inl BackoffError
   \<and> siteDebounceStates
        (snd (syncOnce (example_env 5500 ReadMalformed [ok_response, ok_response])
                [GROUP_70] RDS disconnected)) ''PICK-01'' = None
   \<and> trace (snd (syncOnce (example_env 5500 ReadMalformed [ok_response, ok_response])
                [GROUP_70] RDS disconnected))
     = [EFetch ''http://10.6.44.2:8080/api/work-sites/worksiteUnFiled''
          \<lparr>http_method = ''POST'',
           headers = [(''Content-Type'', ''application/json''),
                      (''Cookie'', ''JSESSIONID=A1B2''),
                      (''Language'', ''en'')],
           body = Some (JObj [(''workSiteIds'', JArr [JStr ''PICK-01''])])\<rparr>]
   \<and> fst (readInputsForGroup_tagged (example_env 5500 ReadMalformed [ok_response, ok_response])
            GROUP_70 disconnected) = StatusBackoff
   \<and> snd (syncOnce_tagged (example_env 5500 ReadMalformed [ok_response, ok_response])
            [GROUP_70] RDS disconnected) = tick disconnected"
proof -
  let ?E = "example_env 5500 ReadMalformed [ok_response, ok_response]"
  have r: "readInputsForGroup ?E GROUP_70 disconnected = (Inl BackoffError, tick disconnected)"
    by (simp add: readInputsForGroup_def Let_def disconnected_def tick_def RECONNECT_BACKOFF_MS_def)
  have rt: "readInputsForGroup_tagged ?E GROUP_70 disconnected = (StatusBackoff, tick disconnected)"
    by (simp add: readInputsForGroup_tagged_def Let_def disconnected_def tick_def
                  RECONNECT_BACKOFF_MS_def)
  have w: "writeWorksiteState ?E PICK_01 False RDS (reset_sites [PICK_01] (tick disconnected)) =
             (RDS, tick (emit (EFetch ''http://10.6.44.2:8080/api/work-sites/worksiteUnFiled''
                  \<lparr>http_method = ''POST'',
                   headers = [(''Content-Type'', ''application/json''),
                              (''Cookie'', ''JSESSIONID=A1B2''),
                              (''Language'', ''en'')],
                   body = Some (JObj [(''workSiteIds'', JArr [JStr ''PICK-01''])])\<rparr>)
                  (reset_sites [PICK_01] (tick disconnected))))"
    by (rule write_empty_ok)
       (simp_all add: reset_sites_def tick_def disconnected_def ok_response_def)
  have s: "syncOnce ?E [GROUP_70] RDS disconnected =
             (RDS, tick (emit (EFetch ''http://10.6.44.2:8080/api/work-sites/worksiteUnFiled''
                  \<lparr>http_method = ''POST'',
                   headers = [(''Content-Type'', ''application/json''),
                              (''Cookie'', ''JSESSIONID=A1B2''),
                              (''Language'', ''en'')],
                   body = Some (JObj [(''workSiteIds'', JArr [JStr ''PICK-01''])])\<rparr>)
                  (reset_sites [PICK_01] (tick disconnected))))"
    by (simp add: syncOnce_def initial_login_def sync_group_def r w defaultToBool_def)
  have st: "syncOnce_tagged ?E [GROUP_70] RDS disconnected = (RDS, tick disconnected)"
    by (simp add: syncOnce_tagged_def initial_login_def sync_group_tagged_def rt)
  show ?thesis
    by (simp add: r rt s st)
       (simp add: reset_sites_def disconnected_def tick_def)
qed


section \<open>A failed read\<close>

text \<open>
  In the copy that returns a status object: a rejected read closes the client, forgets it
  and records the time; a failed connect leaves no client and the time of the attempt; and
  on an error status the cycle logs, deletes the debounce state of every site of the group
  and publishes the defaults.
\<close>

lemma rejected_read_closes_the_client:
  assumes "modbusStates w (key g) = Some st" and "client st = Some c"
    and "readDiscreteInputs E (steps w + 1) = ReadRejected msg"
  shows "readInputsForGroup_tagged E g w
         = (StatusError (''readDiscreteInputs failed: '' @ msg),
            set_state (key g) \<lparr>client = None, lastAttempt = Date_now E (steps w + 3)\<rparr>
              (tick (tick (emit (EClose c)
                 (tick (emit (ERead c (startAddr g) (readLength g)) (tick w)))))))"
  using assms
  by (simp add: readInputsForGroup_tagged_def read_inputs_tagged_def Let_def eval_nat_numeral)

lemma failed_connect_leaves_no_client:
  assumes "modbusStates w (key g) = Some st" and "client st = None"
    and "lastAttempt st = 0 \<or> \<not> Date_now E (steps w) - lastAttempt st < RECONNECT_BACKOFF_MS"
    and "connectTCP E (steps w + 1) = Some msg"
  shows "readInputsForGroup_tagged E g w
         = (StatusError (''connect failed: '' @ msg),
            tick (emit (EConnect (g_ip g) (g_port g))
              (set_state (key g) (st\<lparr>lastAttempt := Date_now E (steps w)\<rparr>) (tick w))))"
  using assms
  by (auto simp: readInputsForGroup_tagged_def Let_def)

lemma error_status_resets_and_publishes:
  assumes "readInputsForGroup_tagged E g w = (StatusError msg, w1)"
  shows "sync_group_tagged E g api w
         = setSitesDefault E (sites g) api
             (reset_sites (sites g) (emit (EError (GroupErrorMsg (key g) msg)) w1))"
    and "s \<in> set (sites g) \<Longrightarrow>
         siteDebounceStates (snd (sync_group_tagged E g api w)) (siteId s) = None"
  using assms
  by (simp_all add: sync_group_tagged_def setSitesDefault_keeps reset_sites_deletes)

text \<open>
  In \<^verbatim>\<open>src/modbus-sync-worksites.js\<close> a rejected read and a malformed answer both end
  in the \<open>catch\<close>, and the cycle falls back to the defaults on whatever was thrown.
\<close>

lemma failed_read_closes_the_client:
  assumes "modbusStates w (key g) = Some st" and "client st = Some c"
    and "readDiscreteInputs E (steps w + 1) = ReadRejected msg
         \<or> readDiscreteInputs E (steps w + 1) = ReadMalformed"
  shows "snd (readInputsForGroup E g w)
         = set_state (key g) \<lparr>client = None, lastAttempt = Date_now E (steps w + 3)\<rparr>
             (tick (tick (emit (EClose c) (emit (EError (ReadFailedMsg (key g)))
                (tick (emit (ERead c (startAddr g) (readLength g)) (tick w)))))))"
    and "isl (fst (readInputsForGroup E g w))"
  using assms
  by (auto simp: readInputsForGroup_def read_inputs_def read_failed_def Let_def
                 eval_nat_numeral)

lemma thrown_error_resets_and_publishes:
  assumes "readInputsForGroup E g w = (Inl err, w1)"
  shows "sync_group E g api w
         = setSitesDefault E (sites g) api (reset_sites (sites g) w1)"
    and "s \<in> set (sites g) \<Longrightarrow>
         siteDebounceStates (snd (sync_group E g api w)) (siteId s) = None"
  using assms
  by (simp_all add: sync_group_def setSitesDefault_keeps reset_sites_deletes)

text \<open>
  C3 on the code. In the copy that returns a status object, a malformed answer is returned
  as an error status from inside the \<open>try\<close>, past the \<open>catch\<close> that closes the client:
  after the cycle the client of the group is still there, the time of the last attempt is
  still 5000 although the clock shows 5500, and no \<open>close\<close> is in the trace. The cycle
  does delete the debounce state of \<open>PICK-01\<close> and publish its default.
  \<^verbatim>\<open>src/modbus-sync-worksites.js\<close> throws in this case, so that on the same input the
  client is closed and forgotten and the time recorded.
\<close>

theorem malformed_answer_keeps_the_client:
  "fst (readInputsForGroup_tagged (example_env 5500 ReadMalformed (replicate 5 ok_response))
          GROUP_70 connected) = StatusError ''invalid readDiscreteInputs response format''
   \<and> modbusStates
        (snd (syncOnce_tagged (example_env 5500 ReadMalformed (replicate 5 ok_response))
                [GROUP_70] RDS connected)) ''10.6.44.70:502:255''
     = Some \<lparr>client = Some (Client ''10.6.44.70'' 502 255), lastAttempt = 5000\<rparr>
   \<and> trace (snd (syncOnce_tagged (example_env 5500 ReadMalformed (replicate 5 ok_response))
                [GROUP_70] RDS connected))
     = [ERead (Client ''10.6.44.70'' 502 255) 9 1,
        EError (GroupErrorMsg ''10.6.44.70:502:255''
                  ''invalid readDiscreteInputs response format''),
        EFetch ''http://10.6.44.2:8080/api/work-sites/worksiteUnFiled''
          \<lparr>http_method = ''POST'',
           headers = [(''Content-Type'', ''application/json''),
                      (''Cookie'', ''JSESSIONID=A1B2''),
                      (''Language'', ''en'')],
           body = Some (JObj [(''workSiteIds'', JArr [JStr ''PICK-01''])])\<rparr>]
   \<and> siteDebounceStates
        (snd (syncOnce_tagged (example_env 5500 ReadMalformed (replicate 5 ok_response))
                [GROUP_70] RDS connected)) ''PICK-01'' = None
   \<and> modbusStates
        (snd (syncOnce (example_env 5500 ReadMalformed (replicate 5 ok_response))
                [GROUP_70] RDS connected)) ''10.6.44.70:502:255''
     = Some \<lparr>client = None, lastAttempt = 5500\<rparr>
   \<and> trace (snd (syncOnce (example_env 5500 ReadMalformed (replicate 5 ok_response))
                [GROUP_70] RDS connected))
     = [ERead (Client ''10.6.44.70'' 502 255) 9 1,
        EError (ReadFailedMsg ''10.6.44.70:502:255''),
        EClose (Client ''10.6.44.70'' 502 255),
        EFetch ''http://10.6.44.2:8080/api/work-sites/worksiteUnFiled''
          \<lparr>http_method = ''POST'',
           headers = [(''Content-Type'', ''application/json''),
                      (''Cookie'', ''JSESSIONID=A1B2''),
                      (''Language'', ''en'')],
           body = Some (JObj [(''workSiteIds'', JArr [JStr ''PICK-01''])])\<rparr>]"
proof -
  let ?E = "example_env 5500 ReadMalformed (replicate 5 ok_response)"
  let ?c = "Client ''10.6.44.70'' 502 255"
  let ?req = "EFetch ''http://10.6.44.2:8080/api/work-sites/worksiteUnFiled''
          \<lparr>http_method = ''POST'',
           headers = [(''Content-Type'', ''application/json''),
                      (''Cookie'', ''JSESSIONID=A1B2''),
                      (''Language'', ''en'')],
           body = Some (JObj [(''workSiteIds'', JArr [JStr ''PICK-01''])])\<rparr>"
  let ?w2 = "tick (emit (ERead ?c 9 1) (tick connected))"
  let ?w3 = "reset_sites [PICK_01]
               (emit (EError (GroupErrorMsg ''10.6.44.70:502:255''
                                ''invalid readDiscreteInputs response format'')) ?w2)"
  let ?v4 = "reset_sites [PICK_01]
               (set_state ''10.6.44.70:502:255'' \<lparr>client = None, lastAttempt = 5500\<rparr>
                  (tick (tick (emit (EClose ?c)
                     (emit (EError (ReadFailedMsg ''10.6.44.70:502:255'')) ?w2)))))"
  have c: "modbusStates connected ''10.6.44.70:502:255''
           = Some \<lparr>client = Some ?c, lastAttempt = 5000\<rparr>"
    by (simp add: connected_def)
  have rt: "readInputsForGroup_tagged ?E GROUP_70 connected
            = (StatusError ''invalid readDiscreteInputs response format'', ?w2)"
    by (simp add: readInputsForGroup_tagged_def read_inputs_tagged_def Let_def c)
  have r: "readInputsForGroup ?E GROUP_70 connected
            = (Inl InvalidResponse,
               set_state ''10.6.44.70:502:255'' \<lparr>client = None, lastAttempt = 5500\<rparr>
                  (tick (tick (emit (EClose ?c)
                     (emit (EError (ReadFailedMsg ''10.6.44.70:502:255'')) ?w2)))))"
    by (simp add: readInputsForGroup_def read_inputs_def read_failed_def Let_def c)
  have f3: "fetch ?E (steps ?w3) = FetchResponse \<lparr>status = 200, set_cookie = None, text_of = ''{}''\<rparr>"
    by (simp add: reset_sites_def connected_def ok_response_def eval_nat_numeral)
  have f4: "fetch ?E (steps ?v4) = FetchResponse \<lparr>status = 200, set_cookie = None, text_of = ''{}''\<rparr>"
    by (simp add: reset_sites_def connected_def ok_response_def eval_nat_numeral)
  have j: "JSON_parse ?E ''{}'' = Some (JObj [])"
    by simp
  have st: "syncOnce_tagged ?E [GROUP_70] RDS connected = (RDS, tick (emit ?req ?w3))"
    by (simp add: syncOnce_tagged_def initial_login_def sync_group_tagged_def rt
                  write_empty_ok [OF f3 j] defaultToBool_def)
  have s: "syncOnce ?E [GROUP_70] RDS connected = (RDS, tick (emit ?req ?v4))"
    by (simp add: syncOnce_def initial_login_def sync_group_def r
                  write_empty_ok [OF f4 j] defaultToBool_def)
  show ?thesis
    by (simp add: rt st s)
       (simp add: reset_sites_def connected_def)
qed

end
